theory Spec2Isabelle
  imports Complex_Main "HOL-Library.Log_Nat"
begin

section \<open>JavaScript values reaching the validators\<close>

text \<open>
  The constructors receive arbitrary JavaScript values. The embedding covers the values
  the validators tell apart: finite numbers (as reals; a number is a double, so the reals
  that occur are doubles), \<open>NaN\<close>, the two infinities, \<open>undefined\<close> (an omitted argument) and
  functions.
\<close>

datatype jsval = Num real | NaN | PosInfinity | NegInfinity | Undefined | Function

text \<open>
  Host builtin \<open>parseInt(num, 10)\<close> on a number: the number is printed and the digits in
  front of the first character that is not a digit are read back. Numbers of magnitude in
  \<open>[10^-6, 10^21)\<close> and zero print in plain decimal notation, so the result is the
  number truncated toward zero. Every other finite number prints in exponent notation
  \<open>d.ddde+n\<close>, so the result is its leading significant digit, with the sign.
  \<open>NaN\<close>, the infinities, \<open>undefined\<close> and functions print as text without a leading
  digit: the result is \<open>NaN\<close>.
\<close>

definition leadingDigit :: "real \<Rightarrow> int" where
  "leadingDigit a =
     (if 1 \<le> a then \<lfloor>a\<rfloor> div 10 ^ (floorlog 10 (nat \<lfloor>a\<rfloor>) - 1)
      else \<lfloor>a * 10 ^ floorlog 10 (nat (\<lceil>1 / a\<rceil> - 1))\<rfloor>)"

definition parseDigits :: "real \<Rightarrow> int" where
  "parseDigits r =
     (if r = 0 \<or> (1 / 10 ^ 6 \<le> \<bar>r\<bar> \<and> \<bar>r\<bar> < 10 ^ 21)
      then (if 0 \<le> r then \<lfloor>r\<rfloor> else \<lceil>r\<rceil>)
      else (if 0 \<le> r then leadingDigit r else - leadingDigit (- r)))"

fun parseInt10 :: "jsval \<Rightarrow> jsval" where
  "parseInt10 (Num r) = Num (of_int (parseDigits r))"
| "parseInt10 v = NaN"

text \<open>Strict equality \<open>===\<close>: \<open>NaN\<close> equals nothing, not even itself.\<close>

fun strictEquals :: "jsval \<Rightarrow> jsval \<Rightarrow> bool" where
  "strictEquals NaN w = False"
| "strictEquals v NaN = False"
| "strictEquals v w = (v = w)"

section \<open>utils\<close>

text \<open>
  \<open>isPositive(num) = num > 0\<close>: the comparison converts its operand to a number;
  \<open>undefined\<close> and functions convert to \<open>NaN\<close>, and every comparison with \<open>NaN\<close> is false.
\<close>

fun isPositive :: "jsval \<Rightarrow> bool" where
  "isPositive (Num r) = (r > 0)"
| "isPositive PosInfinity = True"
| "isPositive v = False"

definition isInt :: "jsval \<Rightarrow> bool" where
  "isInt num = strictEquals num (parseInt10 num)"

fun isFunction :: "jsval \<Rightarrow> bool" where
  "isFunction Function = True"
| "isFunction v = False"

section \<open>ErrorMessages\<close>

datatype error =
    INVALID_POOL_SIZE_VALUE
  | INVALID_POOL_SIZE_TYPE
  | INVALID_INTERVAL_VALUE
  | INVALID_CALLBACK_TYPE
  | NO_RESOURCE_POOLS_FOUND


section \<open>ResourcePool\<close>

text \<open>
  One pool: its entries in the side tables \<open>poolSizes\<close>, \<open>intervals\<close>, \<open>cycles\<close> and
  \<open>currentPoolSize\<close>, together with the part of the host the pool acts on:
  \<^item> \<open>cycles\<close> is \<open>None\<close> when \<open>cycles.has(pool)\<close> is false, otherwise the stored timeout id;
  \<^item> \<open>timers\<close> are the ids of the timeouts scheduled by \<open>startCycle(pool)\<close> that have
    neither fired nor been cleared, \<open>nextTimeout\<close> is the id \<open>setTimeout\<close> hands out next;
  \<^item> \<open>notified\<close> records every invocation of the pool's callback, as the value of
    \<open>pool.remaining\<close> that the callback finds.

  Time is not part of the state: a pending timeout may fire at any later moment, and the
  delay \<open>intervals.get(pool)\<close> that \<open>startCycle\<close> passes to \<open>setTimeout\<close> has no other effect.
\<close>

record pool =
  poolSize :: int
  interval :: int
  currentPoolSize :: int
  cycles :: "nat option"
  timers :: "nat list"
  nextTimeout :: nat
  notified :: "int list"

definition setTimeout :: "pool \<Rightarrow> nat \<times> pool" where
  "setTimeout p =
     (nextTimeout p, p\<lparr>timers := timers p @ [nextTimeout p], nextTimeout := Suc (nextTimeout p)\<rparr>)"

definition clearTimeout :: "nat \<Rightarrow> pool \<Rightarrow> pool" where
  "clearTimeout t p = p\<lparr>timers := removeAll t (timers p)\<rparr>"

definition replenish :: "pool \<Rightarrow> pool" where
  "replenish p = p\<lparr>currentPoolSize := poolSize p\<rparr>"

text \<open>
  The counter is a double. Among the integers, every one below \<open>2^53\<close> in magnitude is a
  double, and from there on those whose 53 leading binary digits are followed by zeros
  only.
  \<open>nearestDouble m\<close> is the double nearest to an integer \<open>m \<ge> 0\<close>, and on a tie the one with
  the even significand.
\<close>

definition nearestDouble :: "int \<Rightarrow> int" where
  "nearestDouble m =
     (if m < 2 ^ 53 then m
      else let q = 2 ^ (floorlog 2 (nat m) - 53); d = m div q; r = m mod q
           in if 2 * r < q \<or> (2 * r = q \<and> even d) then d * q else (d + 1) * q)"

definition isDouble :: "int \<Rightarrow> bool" where
  "isDouble n \<longleftrightarrow> \<bar>n\<bar> < 2 ^ 53 \<or> 2 ^ (floorlog 2 (nat \<bar>n\<bar>) - 53) dvd n"

text \<open>
  \<open>this.remaining - 1\<close> is the double nearest to the exact difference. Up to \<open>2^53\<close> the
  difference is exact. Between \<open>2^53\<close> and \<open>2^54\<close> the doubles are the even integers:
  \<open>n - 1\<close> lies halfway between \<open>n - 2\<close> and \<open>n\<close>, and the result is the one that is a
  multiple of 4. From \<open>2^54\<close> on the double nearest to \<open>n - 1\<close> is \<open>n\<close> itself.
  \<open>minusOne_nearestDouble\<close> below has the proof that this is \<open>nearestDouble (n - 1)\<close> for
  every positive double \<open>n\<close>; \<open>consume()\<close> subtracts from a positive counter only.
\<close>

definition minusOne :: "int \<Rightarrow> int" where
  "minusOne n =
     (if n \<le> 2 ^ 53 then n - 1
      else if n < 2 ^ 54 \<and> n mod 4 = 2 then n - 2
      else n)"

definition ResourcePool_remaining :: "pool \<Rightarrow> int" where
  "ResourcePool_remaining p = currentPoolSize p"

definition ResourcePool_exhausted :: "pool \<Rightarrow> bool" where
  "ResourcePool_exhausted p = (ResourcePool_remaining p \<le> 0)"

text \<open>
  The function that \<open>startCycle\<close> hands to \<open>setTimeout\<close>; the host runs it when the
  timeout fires. The pool's callback is the parameter \<open>callback\<close>.
\<close>

definition cycleTimeout :: "(pool \<Rightarrow> pool) \<Rightarrow> pool \<Rightarrow> pool" where
  "cycleTimeout callback p =
     (let p1 = p\<lparr>cycles := None\<rparr>;
          poolLasExhausted = ResourcePool_exhausted p1;
          p2 = replenish p1
      in if poolLasExhausted then callback p2 else p2)"

definition startCycle :: "pool \<Rightarrow> nat \<times> pool" where
  "startCycle p = setTimeout p"

text \<open>A callback that only looks at \<open>pool.remaining\<close>; \<open>notified\<close> keeps what it saw.\<close>

definition observer :: "pool \<Rightarrow> pool" where
  "observer p = p\<lparr>notified := notified p @ [ResourcePool_remaining p]\<rparr>"

definition toInt :: "jsval \<Rightarrow> int" where
  "toInt v = (case v of Num r \<Rightarrow> \<lfloor>r\<rfloor> | _ \<Rightarrow> 0)"

text \<open>
  The constructor. A validated number is an integer below \<open>10^21\<close>, kept as \<open>int\<close>. The entry of
  \<open>currentPoolSize\<close> does not exist before \<open>replenish(this)\<close> writes it.
\<close>

definition ResourcePool_constructor :: "jsval \<Rightarrow> jsval \<Rightarrow> jsval \<Rightarrow> error + pool" where
  "ResourcePool_constructor poolSize' interval' callback =
     (if \<not> isPositive poolSize' then Inl INVALID_POOL_SIZE_VALUE
      else if \<not> isInt poolSize' then Inl INVALID_POOL_SIZE_TYPE
      else if \<not> isPositive interval' then Inl INVALID_INTERVAL_VALUE
      else if \<not> isInt interval' then Inl INVALID_INTERVAL_VALUE
      else if \<not> isFunction callback then Inl INVALID_CALLBACK_TYPE
      else Inr (replenish \<lparr>poolSize = toInt poolSize', interval = toInt interval',
                  currentPoolSize = 0, cycles = None, timers = [], nextTimeout = 0,
                  notified = []\<rparr>))"

definition ResourcePool_consume :: "pool \<Rightarrow> bool \<times> pool" where
  "ResourcePool_consume p =
     (if ResourcePool_exhausted p then (False, p)
      else let p1 = p\<lparr>currentPoolSize := minusOne (ResourcePool_remaining p)\<rparr>
           in if cycles p1 = None
              then (let (cycleId, p2) = startCycle p1 in (True, p2\<lparr>cycles := Some cycleId\<rparr>))
              else (True, p1))"

definition ResourcePool_destroy :: "pool \<Rightarrow> pool" where
  "ResourcePool_destroy p =
     (case cycles p of Some cycleId \<Rightarrow> clearTimeout cycleId p | None \<Rightarrow> p)"

text \<open>\<open>consume()\<close> called \<open>n\<close> times in immediate succession, with the results in order.\<close>

fun consumeTimes :: "nat \<Rightarrow> pool \<Rightarrow> bool list \<times> pool" where
  "consumeTimes 0 p = ([], p)"
| "consumeTimes (Suc n) p =
     (let (b, p1) = ResourcePool_consume p; (bs, p2) = consumeTimes n p1 in (b # bs, p2))"

text \<open>
  What can happen to a pool: a caller invokes \<open>consume()\<close> or \<open>destroy()\<close>, or the host
  fires a timeout. The host only fires a timeout that is still pending, and the timeout is
  no longer pending when its function runs. The pool's callback is \<open>observer\<close>.
\<close>

datatype event = Consume | Destroy | Timeout nat

fun step :: "event \<Rightarrow> pool \<Rightarrow> pool" where
  "step Consume p = snd (ResourcePool_consume p)"
| "step Destroy p = ResourcePool_destroy p"
| "step (Timeout t) p =
     (if t \<in> set (timers p) then cycleTimeout observer (p\<lparr>timers := removeAll t (timers p)\<rparr>)
      else p)"

fun run :: "event list \<Rightarrow> pool \<Rightarrow> pool" where
  "run [] p = p"
| "run (e # es) p = run es (step e p)"

section \<open>ResourceGroup\<close>

text \<open>
  A group: its entry in the side table \<open>pools\<close>, the member pools in the order of the
  \<open>add\<close> calls, together with the host's counter \<open>nextTimeoutId\<close>, the id \<open>setTimeout\<close>
  hands out next. The members share the host: a member called by the group starts from the
  group's counter, and the group goes on from where the member left it. Each member
  carries its own pending timeouts.
\<close>

record group =
  pools :: "pool list"
  nextTimeoutId :: nat

definition getPools :: "group \<Rightarrow> pool list" where
  "getPools g = pools g"

definition ResourceGroup_constructor :: "jsval \<Rightarrow> error + group" where
  "ResourceGroup_constructor callback =
     (if \<not> isFunction callback then Inl INVALID_CALLBACK_TYPE
      else Inr \<lparr>pools = [], nextTimeoutId = 0\<rparr>)"

text \<open>
  \<open>add\<close> passes the bound function \<open>replenishCallback.bind(this)\<close> to the pool's
  constructor as its callback.
\<close>

definition ResourceGroup_add :: "jsval \<Rightarrow> jsval \<Rightarrow> group \<Rightarrow> error + group" where
  "ResourceGroup_add poolSize' interval' g =
     (if \<not> isPositive poolSize' then Inl INVALID_POOL_SIZE_VALUE
      else if \<not> isInt poolSize' then Inl INVALID_POOL_SIZE_TYPE
      else if \<not> isPositive interval' then Inl INVALID_INTERVAL_VALUE
      else if \<not> isInt interval' then Inl INVALID_INTERVAL_VALUE
      else case ResourcePool_constructor poolSize' interval' Function of
             Inl e \<Rightarrow> Inl e
           | Inr p \<Rightarrow> Inr (g\<lparr>pools := getPools g @ [p]\<rparr>))"

text \<open>\<open>Math.min(...poolRemainingList)\<close> on a list that is not empty.\<close>

definition ResourceGroup_remaining :: "group \<Rightarrow> error + int" where
  "ResourceGroup_remaining g =
     (let poolList = getPools g
      in if length poolList = 0 then Inl NO_RESOURCE_POOLS_FOUND
         else let poolRemainingList = map ResourcePool_remaining poolList
              in Inr (min_list poolRemainingList))"

definition ResourceGroup_exhausted :: "group \<Rightarrow> error + bool" where
  "ResourceGroup_exhausted g =
     (case ResourceGroup_remaining g of Inl e \<Rightarrow> Inl e | Inr n \<Rightarrow> Inr (n \<le> 0))"

text \<open>
  \<open>poolList.forEach(pool => pool.consume())\<close> visits the members from the first to the
  last and drops each result. The member at each position is replaced by its state after
  its own \<open>consume()\<close>, which starts from the host's counter as the members before it have
  left it; the function returns the new members and the counter after the last one.
\<close>

fun forEach_consume :: "pool list \<Rightarrow> nat \<Rightarrow> pool list \<times> nat" where
  "forEach_consume [] n = ([], n)"
| "forEach_consume (pool # poolList) n =
     (let pool' = snd (ResourcePool_consume (pool\<lparr>nextTimeout := n\<rparr>));
          (poolList', n') = forEach_consume poolList (nextTimeout pool')
      in (pool' # poolList', n'))"

definition ResourceGroup_consume :: "group \<Rightarrow> error + bool \<times> group" where
  "ResourceGroup_consume g =
     (case ResourceGroup_exhausted g of
        Inl e \<Rightarrow> Inl e
      | Inr True \<Rightarrow> Inr (False, g)
      | Inr False \<Rightarrow>
          (let (poolList', n') = forEach_consume (getPools g) (nextTimeoutId g)
           in Inr (True, g\<lparr>pools := poolList', nextTimeoutId := n'\<rparr>)))"

definition ResourceGroup_destroy :: "group \<Rightarrow> group" where
  "ResourceGroup_destroy g = g\<lparr>pools := map ResourcePool_destroy (getPools g)\<rparr>"

section \<open>Histories and invariants of a pool\<close>

text \<open>
  Two facts about the history of a pool, read off a sequence of events from a state.
  \<open>drawnDown b es p\<close>: some \<open>consume()\<close> has returned \<open>true\<close> since the last reset by a
  timeout, where \<open>b\<close> says so for the time before \<open>es\<close>. \<open>destroyFoundRecord es p\<close>: some
  \<open>destroy()\<close> in \<open>es\<close> was called while \<open>cycles\<close> had a record for the pool.
\<close>

fun drawnDown :: "bool \<Rightarrow> event list \<Rightarrow> pool \<Rightarrow> bool" where
  "drawnDown b [] p = b"
| "drawnDown b (Consume # es) p =
     drawnDown (b \<or> fst (ResourcePool_consume p)) es (step Consume p)"
| "drawnDown b (Destroy # es) p = drawnDown b es (step Destroy p)"
| "drawnDown b (Timeout t # es) p =
     drawnDown (b \<and> t \<notin> set (timers p)) es (step (Timeout t) p)"

fun destroyFoundRecord :: "event list \<Rightarrow> pool \<Rightarrow> bool" where
  "destroyFoundRecord [] p = False"
| "destroyFoundRecord (e # es) p =
     ((e = Destroy \<and> cycles p \<noteq> None) \<or> destroyFoundRecord es (step e p))"

text \<open>
  What holds of a pool in every state it can reach: the counter stays within the capacity,
  a pool without a record in \<open>cycles\<close> is full, a pool with a record is below its capacity
  if one \<open>consume()\<close> lowers a full pool at all, and a pending timeout is the one the record
  names.
\<close>

definition consistent :: "pool \<Rightarrow> bool" where
  "consistent p \<longleftrightarrow>
     0 \<le> currentPoolSize p \<and> currentPoolSize p \<le> poolSize p \<and>
     (cycles p = None \<longrightarrow> currentPoolSize p = poolSize p) \<and>
     (cycles p \<noteq> None \<and> minusOne (poolSize p) < poolSize p \<longrightarrow>
        currentPoolSize p < poolSize p) \<and>
     (case cycles p of None \<Rightarrow> timers p = [] | Some t \<Rightarrow> timers p = [t] \<or> timers p = [])"

text \<open>
  As long as no \<open>destroy()\<close> finds a record, the record and the pending timeout go together.
\<close>

definition armed :: "pool \<Rightarrow> bool" where
  "armed p \<longleftrightarrow> (case cycles p of None \<Rightarrow> timers p = [] | Some t \<Rightarrow> timers p = [t])"

text \<open>A record whose timeout has been cleared: nothing removes it any more.\<close>

definition cancelled :: "pool \<Rightarrow> bool" where
  "cancelled p \<longleftrightarrow> cycles p \<noteq> None \<and> timers p = []"

section \<open>Properties of a pool\<close>

lemmas pool_defs =
  ResourcePool_consume_def ResourcePool_exhausted_def ResourcePool_remaining_def
  ResourcePool_destroy_def cycleTimeout_def startCycle_def setTimeout_def clearTimeout_def
  replenish_def observer_def

lemmas eval_defs =
  pool_defs Let_def ResourcePool_constructor_def isInt_def parseDigits_def toInt_def
  minusOne_def

lemma floorlog2_eq:
  assumes "2 ^ k \<le> m" "m < 2 ^ Suc k"
  shows "floorlog 2 (nat m) = Suc k"
proof -
  from assms have "(2::nat) ^ k \<le> nat m" "nat m < 2 ^ Suc k"
    by (simp_all add: le_nat_iff nat_less_iff)
  then have "Suc k \<le> floorlog 2 (nat m)" "floorlog 2 (nat m) \<le> Suc k"
    by (simp_all add: floorlog_ge_SucI floorlog_leI)
  then show ?thesis by simp
qed

lemma binade:
  assumes "(1::int) \<le> m"
  obtains k where "2 ^ k \<le> m" "m < 2 ^ Suc k"
proof -
  let ?e = "floorlog 2 (nat m)"
  from assms have pos: "0 < nat m" by simp
  from floorlog_bounds [OF pos, of 2]
  have b: "2 ^ (?e - 1) \<le> nat m" "nat m < 2 ^ ?e" by simp_all
  from pos have "?e \<noteq> 0" by (simp add: floorlog_eq_zero_iff)
  then obtain k where k: "?e = Suc k" by (cases ?e) simp_all
  from b k have "(2::nat) ^ k \<le> nat m" "nat m < 2 ^ Suc k" by simp_all
  then have "(2::int) ^ k \<le> m" "m < 2 ^ Suc k"
    using assms by (simp_all add: le_nat_iff nat_less_iff)
  then show thesis by (rule that)
qed

lemma round_below_double:
  fixes n q :: int
  assumes q: "2 \<le> q" and dvd: "q dvd n"
  shows "(let d = (n - 1) div q; r = (n - 1) mod q
          in if 2 * r < q \<or> (2 * r = q \<and> even d) then d * q else (d + 1) * q) =
         (if q = 2 \<and> odd (n div 2) then n - 2 else n)"
proof -
  from dvd obtain c where "n = q * c" by (rule dvdE)
  then have n: "n = c * q" by simp
  have eq: "n - 1 = (q - 1) + (c - 1) * q" by (simp add: n algebra_simps)
  from q have small: "0 \<le> q - 1" "q - 1 < q" and q0: "q \<noteq> 0" by simp_all
  have "(n - 1) div q = (c - 1) + (q - 1) div q"
    unfolding eq using q0 by (rule div_mult_self1)
  also from small have "(q - 1) div q = 0" by (rule div_pos_pos_trivial)
  finally have d: "(n - 1) div q = c - 1" by simp
  have "(n - 1) mod q = (q - 1) mod q"
    unfolding eq by (rule mod_mult_self1)
  also from small have "(q - 1) mod q = q - 1" by (rule mod_pos_pos_trivial)
  finally have r: "(n - 1) mod q = q - 1" .
  have up: "(c - 1 + 1) * q = n" by (simp add: n)
  have down: "(c - 1) * q = n - q" by (simp add: n algebra_simps)
  show ?thesis
  proof (cases "q = 2")
    case True
    with n have "n div 2 = c" by simp
    then have par: "even (c - 1) \<longleftrightarrow> odd (n div 2)" by simp
    show ?thesis unfolding Let_def d r up down par using True by simp
  next
    case False
    with q have "\<not> 2 * (q - 1) < q" "2 * (q - 1) \<noteq> q" by simp_all
    with False show ?thesis unfolding Let_def d r up down by simp
  qed
qed

lemma nearestDouble_big:
  assumes "\<not> m < 2 ^ 53" and "floorlog 2 (nat m) = e" and "q = 2 ^ (e - 53)"
  shows "nearestDouble m =
     (let d = m div q; r = m mod q
      in if 2 * r < q \<or> (2 * r = q \<and> even d) then d * q else (d + 1) * q)"
  using assms by (simp add: nearestDouble_def Let_def)

lemma minusOne_nearestDouble:
  assumes dbl: "isDouble n" and pos: "0 < n"
  shows "nearestDouble (n - 1) = minusOne n"
proof (cases "n \<le> 2 ^ 53")
  case True
  then show ?thesis by (simp add: nearestDouble_def minusOne_def)
next
  case False
  then have big: "2 ^ 53 < n" by simp
  then have m: "\<not> n - 1 < 2 ^ 53" by simp
  from pos have "1 \<le> n" by simp
  then obtain k where k: "2 ^ k \<le> n" "n < 2 ^ Suc k"
    by (rule binade)
  from big k(2) have "(2::int) ^ 53 < 2 ^ Suc k" by (rule less_trans)
  then have "53 < Suc k" by (rule power_less_imp_less_exp [rotated]) simp
  then have k53: "53 \<le> k" by simp
  have fl: "floorlog 2 (nat n) = Suc k" by (rule floorlog2_eq [OF k])
  from dbl pos False fl have dvd: "2 ^ (Suc k - 53) dvd n"
    by (simp add: isDouble_def)
  show ?thesis
  proof (cases "n = 2 ^ k")
    case True
    with big have "(2::int) ^ 53 < 2 ^ k" by (simp only:)
    then have "53 < k" by (rule power_less_imp_less_exp [rotated]) simp
    then have k54: "54 \<le> k" by simp
    then obtain j where j: "k = Suc j" by (cases k) simp_all
    have "(2::int) ^ j \<le> n - 1" "n - 1 < 2 ^ Suc j"
      using True j by simp_all
    then have flm: "floorlog 2 (nat (n - 1)) = Suc j" by (rule floorlog2_eq)
    define q :: int where "q = 2 ^ (Suc j - 53)"
    from k54 j have le: "Suc j - 53 \<le> k" and ge: "1 \<le> Suc j - 53" by simp_all
    from le have "q dvd 2 ^ k" unfolding q_def by (rule le_imp_power_dvd)
    with True have qdvd: "q dvd n" by simp
    from ge have "(2::int) ^ 1 \<le> q" unfolding q_def by (rule power_increasing) simp
    then have q2: "2 \<le> q" by simp
    from j k54 have "n div 2 = 2 ^ j" "0 < j" using True by simp_all
    then have ev: "even (n div 2)" by simp
    from k54 have "(2::int) ^ 54 \<le> 2 ^ k" by (rule power_increasing) simp
    with True have n54: "\<not> n < 2 ^ 54" by (simp only: not_less)
    have "nearestDouble (n - 1) = (if q = 2 \<and> odd (n div 2) then n - 2 else n)"
      by (simp only: nearestDouble_big [OF m flm q_def] round_below_double [OF q2 qdvd])
    also from ev have "\<dots> = n" by simp
    also from n54 big have "n = minusOne n" by (simp add: minusOne_def)
    finally show ?thesis .
  next
    case False
    with k have "(2::int) ^ k \<le> n - 1" "n - 1 < 2 ^ Suc k" by simp_all
    then have flm: "floorlog 2 (nat (n - 1)) = Suc k" by (rule floorlog2_eq)
    define q :: int where "q = 2 ^ (Suc k - 53)"
    from k53 have ge: "1 \<le> Suc k - 53" by simp
    then have "(2::int) ^ 1 \<le> q" unfolding q_def by (rule power_increasing) simp
    then have q2: "2 \<le> q" by simp
    from dvd have qdvd: "q dvd n" by (simp only: q_def)
    from q2 qdvd have two: "2 dvd n"
      by (metis dvd_trans dvd_power_le dvd_refl ge power_one_right q_def)
    have q_eq: "q = 2 \<longleftrightarrow> n < 2 ^ 54"
    proof
      assume "q = 2"
      then have "(2::int) ^ (Suc k - 53) = 2 ^ 1" by (simp only: q_def power_one_right)
      then have "Suc k - 53 = 1" by (subst (asm) power_inject_exp) simp_all
      with k53 have "k = 53" by simp
      with k(2) show "n < 2 ^ 54" by simp
    next
      assume "n < 2 ^ 54"
      with k(1) have "(2::int) ^ k < 2 ^ 54" by (rule le_less_trans)
      then have "k < 54" by (rule power_less_imp_less_exp [rotated]) simp
      with k53 have "k = 53" by simp
      then show "q = 2" by (simp add: q_def)
    qed
    from two have odd_eq: "odd (n div 2) \<longleftrightarrow> n mod 4 = 2"
      by presburger
    have "nearestDouble (n - 1) = (if q = 2 \<and> odd (n div 2) then n - 2 else n)"
      by (simp only: nearestDouble_big [OF m flm q_def] round_below_double [OF q2 qdvd])
    also have "\<dots> = (if n < 2 ^ 54 \<and> n mod 4 = 2 then n - 2 else n)"
      by (simp only: q_eq odd_eq)
    also from big have "\<dots> = minusOne n" by (simp add: minusOne_def)
    finally show ?thesis .
  qed
qed

lemma minusOne_exact: "n \<le> 2 ^ 53 \<Longrightarrow> minusOne n = n - 1"
  by (simp add: minusOne_def)

lemma minusOne_bounds: "0 < n \<Longrightarrow> 0 \<le> minusOne n \<and> minusOne n \<le> n"
  by (simp add: minusOne_def)

lemma minusOne_mono_below: "0 < n \<Longrightarrow> n < c \<Longrightarrow> minusOne n < c"
  using minusOne_bounds [of n] by simp

lemma consume_exhausted:
  "ResourcePool_exhausted p \<Longrightarrow> ResourcePool_consume p = (False, p)"
  by (simp add: ResourcePool_consume_def)

lemma consume_arming:
  "\<not> ResourcePool_exhausted p \<Longrightarrow> cycles p = None \<Longrightarrow>
   ResourcePool_consume p =
     (True, p\<lparr>currentPoolSize := minusOne (currentPoolSize p),
               cycles := Some (nextTimeout p), timers := timers p @ [nextTimeout p],
               nextTimeout := Suc (nextTimeout p)\<rparr>)"
  by (auto simp: pool_defs Let_def)

lemma consume_armed:
  "\<not> ResourcePool_exhausted p \<Longrightarrow> cycles p \<noteq> None \<Longrightarrow>
   ResourcePool_consume p = (True, p\<lparr>currentPoolSize := minusOne (currentPoolSize p)\<rparr>)"
  by (auto simp: pool_defs Let_def)

lemma consume_available:
  "\<not> ResourcePool_exhausted p \<Longrightarrow>
   fst (ResourcePool_consume p) \<and>
   currentPoolSize (snd (ResourcePool_consume p)) = minusOne (currentPoolSize p)"
  by (cases "cycles p = None") (simp_all add: consume_arming consume_armed)

lemma consumeTimes_drain:
  "currentPoolSize p = int c \<Longrightarrow> int c \<le> 2 ^ 53 \<Longrightarrow>
   fst (consumeTimes c p) = replicate c True \<and>
   currentPoolSize (snd (consumeTimes c p)) = 0 \<and>
   consumeTimes (Suc c) p = (replicate c True @ [False], snd (consumeTimes c p))"
proof (induction c arbitrary: p)
  case 0
  then have "ResourcePool_exhausted p"
    by (simp add: ResourcePool_exhausted_def ResourcePool_remaining_def)
  then show ?case using 0 by (simp add: consume_exhausted)
next
  case (Suc c)
  then have avail: "\<not> ResourcePool_exhausted p"
    by (simp add: ResourcePool_exhausted_def ResourcePool_remaining_def)
  obtain b p1 where c1: "ResourcePool_consume p = (b, p1)"
    by (cases "ResourcePool_consume p")
  with consume_available [OF avail] Suc.prems have b: "b" and p1: "currentPoolSize p1 = int c"
    by (simp_all add: minusOne_exact)
  from Suc.prems have "int c \<le> 2 ^ 53" by simp
  from Suc.IH [OF p1 this] show ?case
    using c1 b by (simp add: case_prod_unfold)
qed

lemma cycleTimeout_unfold:
  "cycleTimeout callback p =
     (if ResourcePool_exhausted p then callback (replenish (p\<lparr>cycles := None\<rparr>))
      else replenish (p\<lparr>cycles := None\<rparr>))"
  by (simp add: cycleTimeout_def Let_def ResourcePool_exhausted_def ResourcePool_remaining_def)

lemma isInt_Num: "isInt (Num r) \<Longrightarrow> r = of_int \<lfloor>r\<rfloor>"
  by (simp add: isInt_def) (metis floor_of_int)

text \<open>
  What \<open>isInt\<close> accepts among the numbers: the integers below \<open>10^21\<close> in magnitude (from
  \<open>10^21\<close> on a number prints in exponent notation, and \<open>parseInt\<close> reads back one digit).
\<close>

lemma leadingDigit_less:
  assumes "10 ^ 21 \<le> a"
  shows "of_int (leadingDigit a) < a"
proof -
  let ?n = "nat \<lfloor>a\<rfloor>"
  from assms have fl: "(10::int) ^ 21 \<le> \<lfloor>a\<rfloor>"
    by (simp add: le_floor_iff)
  then have n: "(10::nat) ^ 21 \<le> ?n" by (simp add: le_nat_iff)
  then have "Suc 21 \<le> floorlog 10 ?n" by (intro floorlog_ge_SucI) simp_all
  then obtain k where k: "floorlog 10 ?n - 1 = Suc k"
    by (cases "floorlog 10 ?n - 1") simp_all
  from fl have pos: "0 < \<lfloor>a\<rfloor>" by simp
  have "(10::int) ^ Suc k \<ge> 10" by simp
  then have "\<lfloor>a\<rfloor> div 10 ^ Suc k \<le> \<lfloor>a\<rfloor> div 10"
    using pos by (intro zdiv_mono2) simp_all
  also from pos have "\<dots> < \<lfloor>a\<rfloor>" by (rule int_div_less_self) simp
  finally have "leadingDigit a < \<lfloor>a\<rfloor>"
    using assms k by (simp add: leadingDigit_def)
  then have "of_int (leadingDigit a) < (of_int \<lfloor>a\<rfloor> :: real)" by simp
  also have "\<dots> \<le> a" by simp
  finally show ?thesis .
qed

lemma isInt_Num_iff: "isInt (Num r) \<longleftrightarrow> r \<in> \<int> \<and> \<bar>r\<bar> < 10 ^ 21"
proof
  assume "isInt (Num r)"
  then have eq: "r = of_int (parseDigits r)" by (simp add: isInt_def)
  then have int: "r \<in> \<int>" by (metis Ints_of_int)
  have "\<bar>r\<bar> < 10 ^ 21"
  proof (rule ccontr)
    assume "\<not> \<bar>r\<bar> < 10 ^ 21"
    then have big: "10 ^ 21 \<le> \<bar>r\<bar>" by simp
    show False
    proof (cases "0 \<le> r")
      case True
      with big have "parseDigits r = leadingDigit r" by (simp add: parseDigits_def)
      with leadingDigit_less [of r] big True eq show False by simp
    next
      case False
      with big have "parseDigits r = - leadingDigit (- r)" by (simp add: parseDigits_def)
      with leadingDigit_less [of "- r"] big False eq show False by simp
    qed
  qed
  with int show "r \<in> \<int> \<and> \<bar>r\<bar> < 10 ^ 21" ..
next
  assume "r \<in> \<int> \<and> \<bar>r\<bar> < 10 ^ 21"
  then obtain k where k: "r = of_int k" and small: "\<bar>r\<bar> < 10 ^ 21"
    by (auto elim: Ints_cases)
  have "parseDigits r = k"
  proof (cases "k = 0")
    case True
    with k show ?thesis by (simp add: parseDigits_def)
  next
    case False
    then have "1 \<le> \<bar>k\<bar>" by simp
    then have "(1::real) \<le> \<bar>of_int k\<bar>" by (metis of_int_1_le_iff of_int_abs)
    then have "1 / 10 ^ 6 \<le> \<bar>r\<bar>" using k by simp
    with small k show ?thesis by (simp add: parseDigits_def)
  qed
  with k show "isInt (Num r)" by (simp add: isInt_def)
qed

lemma isPositive_isInt_cases:
  assumes "isPositive v" "isInt v"
  shows "v = Num (of_int (toInt v)) \<and> 0 < toInt v"
proof (cases v)
  case (Num r)
  with assms have r: "0 < r" "r = of_int \<lfloor>r\<rfloor>"
    by (simp_all add: isInt_Num)
  then have "0 < (of_int \<lfloor>r\<rfloor> :: real)" by simp
  then have "0 < \<lfloor>r\<rfloor>" by (simp only: of_int_0_less_iff)
  with r Num show ?thesis by (simp add: toInt_def)
qed (use assms in \<open>simp_all add: isInt_def\<close>)

lemma constructor_Inr:
  assumes "ResourcePool_constructor s i cb = Inr p"
  shows "p = \<lparr>poolSize = toInt s, interval = toInt i, currentPoolSize = toInt s, cycles = None,
               timers = [], nextTimeout = 0, notified = []\<rparr> \<and>
         s = Num (of_int (toInt s)) \<and> 0 < toInt s \<and> i = Num (of_int (toInt i)) \<and> 0 < toInt i \<and>
         cb = Function"
proof -
  from assms have ok: "isPositive s" "isInt s" "isPositive i" "isInt i" "isFunction cb"
    by (auto simp: ResourcePool_constructor_def split: if_splits)
  from assms ok have p: "p = \<lparr>poolSize = toInt s, interval = toInt i, currentPoolSize = toInt s,
      cycles = None, timers = [], nextTimeout = 0, notified = []\<rparr>"
    by (simp add: ResourcePool_constructor_def replenish_def)
  note s = isPositive_isInt_cases [OF ok(1,2)]
  note i = isPositive_isInt_cases [OF ok(3,4)]
  from ok(5) have "cb = Function" by (cases cb) simp_all
  with p s i show ?thesis by blast
qed


section \<open>Reachable states of a pool\<close>

lemma constructor_consistent:
  "ResourcePool_constructor s i cb = Inr p \<Longrightarrow> consistent p"
  using constructor_Inr [of s i cb p] 
  by (auto simp add: consistent_def)

lemma step_consistent: "consistent p \<Longrightarrow> consistent (step e p)"
proof (cases e)
  case Consume
  assume "consistent p"
  then show ?thesis unfolding Consume
    using minusOne_bounds [of "currentPoolSize p"]
    by (auto simp: consistent_def pool_defs Let_def split: option.splits)
next
  case Destroy
  assume "consistent p"
  then show ?thesis unfolding Destroy
    by (auto simp: consistent_def pool_defs Let_def split: option.splits)
next
  case (Timeout t)
  assume "consistent p"
  then show ?thesis unfolding Timeout
    by (auto simp: consistent_def pool_defs Let_def split: option.splits)
qed

lemma run_consistent: "consistent p \<Longrightarrow> consistent (run es p)"
  by (induction es arbitrary: p) (simp_all add: step_consistent)

lemma step_poolSize: "poolSize (step e p) = poolSize p"
  by (cases e) (auto simp: pool_defs Let_def split: option.splits)

lemma run_poolSize: "poolSize (run es p) = poolSize p"
  by (induction es arbitrary: p) (simp_all add: step_poolSize)

lemma step_armed: "armed p \<Longrightarrow> \<not> (e = Destroy \<and> cycles p \<noteq> None) \<Longrightarrow> armed (step e p)"
  by (cases e) (auto simp: armed_def pool_defs Let_def split: option.splits)

lemma run_armed: "armed p \<Longrightarrow> \<not> destroyFoundRecord es p \<Longrightarrow> armed (run es p)"
  by (induction es arbitrary: p) (simp_all add: step_armed)

lemma constructor_armed: "ResourcePool_constructor s i cb = Inr p \<Longrightarrow> armed p"
  using constructor_Inr [of s i cb p] by (auto simp: armed_def)

lemma step_cancelled:
  "cancelled p \<Longrightarrow>
   cancelled (step e p) \<and> cycles (step e p) = cycles p \<and> notified (step e p) = notified p \<and>
   currentPoolSize (step e p) \<le> currentPoolSize p"
  using minusOne_bounds [of "currentPoolSize p"]
  by (cases e) (auto simp: cancelled_def pool_defs Let_def split: option.splits)

lemma run_cancelled:
  "cancelled p \<Longrightarrow>
   cancelled (run es p) \<and> cycles (run es p) = cycles p \<and> notified (run es p) = notified p \<and>
   currentPoolSize (run es p) \<le> currentPoolSize p"
proof (induction es arbitrary: p)
  case Nil
  then show ?case by simp
next
  case (Cons e es)
  from step_cancelled [OF Cons.prems, of e] Cons.IH [of "step e p"] show ?case
    by auto
qed

lemma cancelled_Timeout: "cancelled p \<Longrightarrow> step (Timeout t) p = p"
  by (simp add: cancelled_def)

lemma destroy_cancelled:
  "consistent p \<Longrightarrow> cycles p \<noteq> None \<Longrightarrow> cancelled (ResourcePool_destroy p)"
  by (auto simp: consistent_def cancelled_def pool_defs split: option.splits)

lemma destroy_fields:
  "currentPoolSize (ResourcePool_destroy p) = currentPoolSize p \<and>
   poolSize (ResourcePool_destroy p) = poolSize p \<and>
   cycles (ResourcePool_destroy p) = cycles p \<and>
   notified (ResourcePool_destroy p) = notified p"
  by (auto simp: pool_defs split: option.splits)

lemma destroy_idem: "ResourcePool_destroy (ResourcePool_destroy p) = ResourcePool_destroy p"
  by (auto simp: pool_defs split: option.splits)

lemma destroy_timers:
  "consistent p \<Longrightarrow>
   timers (ResourcePool_destroy p) = [] \<and> (timers p = [] \<longrightarrow> ResourcePool_destroy p = p)"
  by (auto simp: consistent_def pool_defs split: option.splits)

lemma run_destroyFoundRecord:
  "consistent p \<Longrightarrow> destroyFoundRecord es p \<Longrightarrow> cancelled (run es p)"
proof (induction es arbitrary: p)
  case Nil
  then show ?case by simp
next
  case (Cons e es)
  show ?case
  proof (cases "e = Destroy \<and> cycles p \<noteq> None")
    case True
    with Cons.prems(1) have "cancelled (step e p)"
      by (simp add: destroy_cancelled)
    then show ?thesis using run_cancelled [of "step e p" es] by simp
  next
    case False
    with Cons.prems(2) have "destroyFoundRecord es (step e p)" by auto
    with Cons.IH [OF step_consistent [OF Cons.prems(1)]] show ?thesis by simp
  qed
qed

lemma step_record:
  "cycles (step Consume p) \<noteq> None \<longleftrightarrow> cycles p \<noteq> None \<or> fst (ResourcePool_consume p)"
  "cycles (step Destroy p) = cycles p"
  "cycles (step (Timeout t) p) \<noteq> None \<longleftrightarrow> cycles p \<noteq> None \<and> t \<notin> set (timers p)"
  by (auto simp: pool_defs Let_def split: option.splits)

lemma run_drawnDown:
  "(b \<longleftrightarrow> cycles p \<noteq> None) \<Longrightarrow> (drawnDown b es p \<longleftrightarrow> cycles (run es p) \<noteq> None)"
proof (induction b es p rule: drawnDown.induct)
  case (1 b p)
  then show ?case by simp
next
  case (2 b es p)
  from 2(2) have "(b \<or> fst (ResourcePool_consume p)) \<longleftrightarrow> cycles (step Consume p) \<noteq> None"
    by (simp only: step_record)
  from 2(1) [OF this] show ?case by simp
next
  case (3 b es p)
  from 3(2) have "b \<longleftrightarrow> cycles (step Destroy p) \<noteq> None"
    by (simp only: step_record)
  from 3(1) [OF this] show ?case by simp
next
  case (4 b t es p)
  from 4(2) have "(b \<and> t \<notin> set (timers p)) \<longleftrightarrow> cycles (step (Timeout t) p) \<noteq> None"
    by (simp only: step_record)
  from 4(1) [OF this] show ?case by simp
qed

section \<open>Properties of a group\<close>

lemmas group_defs =
  ResourceGroup_remaining_def ResourceGroup_exhausted_def ResourceGroup_consume_def
  ResourceGroup_destroy_def getPools_def

lemma group_remaining_Inr:
  "pools g \<noteq> [] \<Longrightarrow>
   ResourceGroup_remaining g = Inr (Min (ResourcePool_remaining ` set (pools g)))"
  by (simp add: ResourceGroup_remaining_def getPools_def Let_def min_list_Min)

lemma group_exhausted_Inr:
  "pools g \<noteq> [] \<Longrightarrow>
   ResourceGroup_exhausted g = Inr (\<exists>p \<in> set (pools g). ResourcePool_exhausted p)"
  by (simp add: ResourceGroup_exhausted_def group_remaining_Inr Min_le_iff
      ResourcePool_exhausted_def)

lemma group_remaining_Inl:
  "ResourceGroup_remaining g = Inl e \<longleftrightarrow> pools g = [] \<and> e = NO_RESOURCE_POOLS_FOUND"
  by (auto simp: ResourceGroup_remaining_def getPools_def Let_def)

lemma group_exhausted_Inl:
  "ResourceGroup_exhausted g = Inl e \<longleftrightarrow> pools g = [] \<and> e = NO_RESOURCE_POOLS_FOUND"
proof (cases "pools g = []")
  case True
  then have "ResourceGroup_remaining g = Inl NO_RESOURCE_POOLS_FOUND"
    by (simp add: group_remaining_Inl)
  with True show ?thesis by (auto simp: ResourceGroup_exhausted_def)
next
  case False
  then show ?thesis by (simp add: group_exhausted_Inr)
qed

lemma group_consume_Inl:
  "ResourceGroup_consume g = Inl e \<longleftrightarrow> pools g = [] \<and> e = NO_RESOURCE_POOLS_FOUND"
proof (cases "pools g = []")
  case True
  then have "ResourceGroup_exhausted g = Inl NO_RESOURCE_POOLS_FOUND"
    by (simp add: group_exhausted_Inl)
  with True show ?thesis by (auto simp: ResourceGroup_consume_def)
next
  case False
  then show ?thesis
    by (cases "\<exists>p \<in> set (pools g). ResourcePool_exhausted p")
      (simp_all add: ResourceGroup_consume_def group_exhausted_Inr case_prod_unfold Let_def)
qed

lemma group_consume_Inr:
  "pools g \<noteq> [] \<Longrightarrow>
   ResourceGroup_consume g =
     (if \<exists>p \<in> set (pools g). ResourcePool_exhausted p then Inr (False, g)
      else Inr (True, g\<lparr>pools := fst (forEach_consume (pools g) (nextTimeoutId g)),
                        nextTimeoutId := snd (forEach_consume (pools g) (nextTimeoutId g))\<rparr>))"
  by (simp add: ResourceGroup_consume_def group_exhausted_Inr getPools_def case_prod_unfold Let_def)

lemma member_consume:
  assumes "\<not> ResourcePool_exhausted p"
  shows "nextTimeout (snd (ResourcePool_consume (p\<lparr>nextTimeout := n\<rparr>))) =
           n + length (filter (\<lambda>p. cycles p = None) [p])"
    and "fst (ResourcePool_consume (p\<lparr>nextTimeout := n\<rparr>))"
    and "currentPoolSize (snd (ResourcePool_consume (p\<lparr>nextTimeout := n\<rparr>))) =
           minusOne (currentPoolSize p)"
    and "cycles p = None \<Longrightarrow> cycles (snd (ResourcePool_consume (p\<lparr>nextTimeout := n\<rparr>))) = Some n"
  using assms by (auto simp: pool_defs Let_def)

lemma forEach_consume_members:
  assumes "\<forall>p \<in> set ps. \<not> ResourcePool_exhausted p"
  shows "length (fst (forEach_consume ps n)) = length ps \<and>
         snd (forEach_consume ps n) = n + length (filter (\<lambda>p. cycles p = None) ps) \<and>
         (\<forall>k < length ps.
            fst (forEach_consume ps n) ! k =
              snd (ResourcePool_consume
                ((ps ! k)\<lparr>nextTimeout := n + length (filter (\<lambda>p. cycles p = None) (take k ps))\<rparr>)))"
  using assms
proof (induction ps arbitrary: n)
  case Nil
  then show ?case by simp
next
  case (Cons p ps)
  let ?p' = "snd (ResourcePool_consume (p\<lparr>nextTimeout := n\<rparr>))"
  from Cons.prems have avail: "\<not> ResourcePool_exhausted p"
    and rest: "\<forall>p \<in> set ps. \<not> ResourcePool_exhausted p"
    by simp_all
  note nxt = member_consume(1) [OF avail, of n]
  note ih = Cons.IH [OF rest, of "nextTimeout ?p'"]
  have unfold: "forEach_consume (p # ps) n =
      (?p' # fst (forEach_consume ps (nextTimeout ?p')),
       snd (forEach_consume ps (nextTimeout ?p')))"
    by (simp add: Let_def case_prod_unfold)
  have len: "length (fst (forEach_consume (p # ps) n)) = length (p # ps)"
    using ih by (simp add: unfold del: forEach_consume.simps)
  have cnt: "snd (forEach_consume (p # ps) n) =
      n + length (filter (\<lambda>p. cycles p = None) (p # ps))"
    using ih nxt by (simp add: unfold del: forEach_consume.simps)
  have nth: "fst (forEach_consume (p # ps) n) ! k =
      snd (ResourcePool_consume
        (((p # ps) ! k)\<lparr>nextTimeout :=
           n + length (filter (\<lambda>p. cycles p = None) (take k (p # ps)))\<rparr>))"
    if "k < length (p # ps)" for k
  proof (cases k)
    case 0
    then show ?thesis by (simp add: unfold del: forEach_consume.simps)
  next
    case (Suc j)
    with that have "j < length ps" by simp
    with ih have "fst (forEach_consume ps (nextTimeout ?p')) ! j =
        snd (ResourcePool_consume
          ((ps ! j)\<lparr>nextTimeout :=
             nextTimeout ?p' + length (filter (\<lambda>p. cycles p = None) (take j ps))\<rparr>))"
      by blast
    with nxt Suc show ?thesis by (simp add: unfold del: forEach_consume.simps)
  qed
  from len cnt nth show ?case by blast
qed

section \<open>The pool: consume, cycle and destroy\<close>

text \<open>
  Claim C1, as the code has it. An exhausted pool: \<open>consume()\<close> returns \<open>false\<close> and leaves
  the pool as it is. Otherwise \<open>consume()\<close> returns \<open>true\<close> and replaces \<open>remaining\<close> by
  \<open>remaining - 1\<close> as doubles subtract, which is exactly one less while \<open>remaining\<close> is at
  most \<open>2^53\<close>; it schedules a timeout, and stores its id in \<open>cycles\<close>, exactly when \<open>cycles\<close>
  has no record for the pool, and changes nothing else. From \<open>remaining = c\<close> with \<open>c\<close> at
  most \<open>2^53\<close>, as in a full pool of such a capacity \<open>c\<close>, \<open>c\<close> calls return \<open>true\<close> and leave
  \<open>remaining = 0\<close>, and call \<open>c + 1\<close> returns \<open>false\<close> and leaves the pool as call \<open>c\<close> left
  it.
\<close>

theorem consume_contract:
  "(ResourcePool_exhausted p \<longrightarrow> ResourcePool_consume p = (False, p)) \<and>
   (\<not> ResourcePool_exhausted p \<and> cycles p = None \<longrightarrow>
      ResourcePool_consume p =
        (True, p\<lparr>currentPoolSize := minusOne (currentPoolSize p),
                  cycles := Some (nextTimeout p), timers := timers p @ [nextTimeout p],
                  nextTimeout := Suc (nextTimeout p)\<rparr>)) \<and>
   (\<not> ResourcePool_exhausted p \<and> cycles p \<noteq> None \<longrightarrow>
      ResourcePool_consume p = (True, p\<lparr>currentPoolSize := minusOne (currentPoolSize p)\<rparr>)) \<and>
   (\<not> ResourcePool_exhausted p \<and> ResourcePool_remaining p \<le> 2 ^ 53 \<longrightarrow>
      ResourcePool_remaining (snd (ResourcePool_consume p)) = ResourcePool_remaining p - 1) \<and>
   (ResourcePool_remaining p = int c \<and> int c \<le> 2 ^ 53 \<longrightarrow>
      fst (consumeTimes c p) = replicate c True \<and>
      ResourcePool_remaining (snd (consumeTimes c p)) = 0 \<and>
      consumeTimes (Suc c) p = (replicate c True @ [False], snd (consumeTimes c p)))"
proof (intro conjI impI)
  show "ResourcePool_consume p = (False, p)" if "ResourcePool_exhausted p"
    using that by (rule consume_exhausted)
  show "ResourcePool_consume p =
      (True, p\<lparr>currentPoolSize := minusOne (currentPoolSize p),
                cycles := Some (nextTimeout p), timers := timers p @ [nextTimeout p],
                nextTimeout := Suc (nextTimeout p)\<rparr>)"
    if "\<not> ResourcePool_exhausted p \<and> cycles p = None"
    using that by (simp add: consume_arming)
  show "ResourcePool_consume p = (True, p\<lparr>currentPoolSize := minusOne (currentPoolSize p)\<rparr>)"
    if "\<not> ResourcePool_exhausted p \<and> cycles p \<noteq> None"
    using that by (simp add: consume_armed)
  show "ResourcePool_remaining (snd (ResourcePool_consume p)) = ResourcePool_remaining p - 1"
    if "\<not> ResourcePool_exhausted p \<and> ResourcePool_remaining p \<le> 2 ^ 53"
    using that consume_available [of p]
    by (simp add: ResourcePool_remaining_def minusOne_exact)
next
  assume "ResourcePool_remaining p = int c \<and> int c \<le> 2 ^ 53"
  then have "currentPoolSize p = int c" "int c \<le> 2 ^ 53"
    by (simp_all add: ResourcePool_remaining_def)
  note drain = consumeTimes_drain [OF this]
  from drain show "fst (consumeTimes c p) = replicate c True" by simp
  from drain show "ResourcePool_remaining (snd (consumeTimes c p)) = 0"
    by (simp add: ResourcePool_remaining_def)
  from drain show "consumeTimes (Suc c) p =
      (replicate c True @ [False], snd (consumeTimes c p))" by simp
qed

theorem consume_contract_witness:
  "ResourcePool_exhausted \<lparr>poolSize = 2, interval = 5, currentPoolSize = 0, cycles = Some 0,
      timers = [0], nextTimeout = 1, notified = []\<rparr> \<and>
   ResourcePool_consume \<lparr>poolSize = 2, interval = 5, currentPoolSize = 0, cycles = Some 0,
      timers = [0], nextTimeout = 1, notified = []\<rparr> =
     (False, \<lparr>poolSize = 2, interval = 5, currentPoolSize = 0, cycles = Some 0,
      timers = [0], nextTimeout = 1, notified = []\<rparr>) \<and>
   ResourcePool_consume \<lparr>poolSize = 2, interval = 5, currentPoolSize = 2, cycles = None,
      timers = [], nextTimeout = 0, notified = []\<rparr> =
     (True, \<lparr>poolSize = 2, interval = 5, currentPoolSize = 1, cycles = Some 0,
      timers = [0], nextTimeout = 1, notified = []\<rparr>) \<and>
   ResourcePool_consume \<lparr>poolSize = 2, interval = 5, currentPoolSize = 1, cycles = Some 0,
      timers = [0], nextTimeout = 1, notified = []\<rparr> =
     (True, \<lparr>poolSize = 2, interval = 5, currentPoolSize = 0, cycles = Some 0,
      timers = [0], nextTimeout = 1, notified = []\<rparr>) \<and>
   int 2 \<le> 2 ^ 53 \<and>
   consumeTimes 3 \<lparr>poolSize = 2, interval = 5, currentPoolSize = 2, cycles = None,
      timers = [], nextTimeout = 0, notified = []\<rparr> =
     ([True, True, False], \<lparr>poolSize = 2, interval = 5, currentPoolSize = 0, cycles = Some 0,
      timers = [0], nextTimeout = 1, notified = []\<rparr>)"
  using
    consume_contract [of "\<lparr>poolSize = 2, interval = 5, currentPoolSize = 0, cycles = Some 0,
      timers = [0], nextTimeout = 1, notified = []\<rparr>" 0]
    consume_contract [of "\<lparr>poolSize = 2, interval = 5, currentPoolSize = 2, cycles = None,
      timers = [], nextTimeout = 0, notified = []\<rparr>" 2]
    consume_contract [of "\<lparr>poolSize = 2, interval = 5, currentPoolSize = 1, cycles = Some 0,
      timers = [0], nextTimeout = 1, notified = []\<rparr>" 1]
  by (simp add: eval_defs numeral_3_eq_3 numeral_2_eq_2)

text \<open>
  The record is not the timer: after \<open>consume()\<close> and \<open>destroy()\<close> on a pool of capacity 2
  the timeout is cleared and no timeout is pending, the pool is not exhausted, and
  \<open>consume()\<close> returns \<open>true\<close> without scheduling a timeout. And the counter is a double: on
  a new pool of capacity \<open>2^53 + 2\<close>, \<open>consume()\<close> leaves \<open>remaining = 2^53\<close>.
\<close>

theorem consume_rearm_counterexample:
  "ResourcePool_constructor (Num 2) (Num 5) Function =
     Inr \<lparr>poolSize = 2, interval = 5, currentPoolSize = 2, cycles = None, timers = [],
          nextTimeout = 0, notified = []\<rparr> \<and>
   run [Consume, Destroy] \<lparr>poolSize = 2, interval = 5, currentPoolSize = 2, cycles = None,
      timers = [], nextTimeout = 0, notified = []\<rparr> =
     \<lparr>poolSize = 2, interval = 5, currentPoolSize = 1, cycles = Some 0, timers = [],
      nextTimeout = 1, notified = []\<rparr> \<and>
   \<not> ResourcePool_exhausted \<lparr>poolSize = 2, interval = 5, currentPoolSize = 1, cycles = Some 0,
      timers = [], nextTimeout = 1, notified = []\<rparr> \<and>
   ResourcePool_consume \<lparr>poolSize = 2, interval = 5, currentPoolSize = 1, cycles = Some 0,
      timers = [], nextTimeout = 1, notified = []\<rparr> =
     (True, \<lparr>poolSize = 2, interval = 5, currentPoolSize = 0, cycles = Some 0, timers = [],
      nextTimeout = 1, notified = []\<rparr>) \<and>
   ResourcePool_constructor (Num 9007199254740994) (Num 5) Function =
     Inr \<lparr>poolSize = 9007199254740994, interval = 5, currentPoolSize = 9007199254740994,
          cycles = None, timers = [], nextTimeout = 0, notified = []\<rparr> \<and>
   ResourcePool_consume \<lparr>poolSize = 9007199254740994, interval = 5,
      currentPoolSize = 9007199254740994, cycles = None, timers = [], nextTimeout = 0,
      notified = []\<rparr> =
     (True, \<lparr>poolSize = 9007199254740994, interval = 5, currentPoolSize = 9007199254740992,
      cycles = Some 0, timers = [0], nextTimeout = 1, notified = []\<rparr>)"
  by (simp add: eval_defs)

text \<open>
  Claim C2. When the timeout fires, the record in \<open>cycles\<close> is deleted, \<open>remaining\<close> is set
  to the capacity, and the callback is invoked exactly when the pool was exhausted before
  the reset; it is invoked on the pool after the reset, where \<open>remaining\<close> is the
  capacity and the record is gone. With the callback \<open>observer\<close>, \<open>notified\<close> gains the
  capacity if the pool was exhausted and nothing otherwise.
\<close>

theorem cycle_firing:
  "cycleTimeout callback p =
     (if ResourcePool_exhausted p then callback (replenish (p\<lparr>cycles := None\<rparr>))
      else replenish (p\<lparr>cycles := None\<rparr>)) \<and>
   cycles (replenish (p\<lparr>cycles := None\<rparr>)) = None \<and>
   ResourcePool_remaining (replenish (p\<lparr>cycles := None\<rparr>)) = poolSize p \<and>
   poolSize (replenish (p\<lparr>cycles := None\<rparr>)) = poolSize p \<and>
   (t \<in> set (timers p) \<longrightarrow>
      step (Timeout t) p =
        p\<lparr>timers := removeAll t (timers p), cycles := None, currentPoolSize := poolSize p,
          notified := notified p @ (if ResourcePool_exhausted p then [poolSize p] else [])\<rparr>)"
  by (simp add: cycleTimeout_unfold)
    (simp add: replenish_def observer_def ResourcePool_remaining_def ResourcePool_exhausted_def)

theorem cycle_firing_witness:
  "0 \<in> set (timers \<lparr>poolSize = 2, interval = 5, currentPoolSize = 0, cycles = Some 0,
      timers = [0], nextTimeout = 1, notified = []\<rparr>) \<and>
   step (Timeout 0) \<lparr>poolSize = 2, interval = 5, currentPoolSize = 0, cycles = Some 0,
      timers = [0], nextTimeout = 1, notified = []\<rparr> =
     \<lparr>poolSize = 2, interval = 5, currentPoolSize = 2, cycles = None, timers = [],
      nextTimeout = 1, notified = [2]\<rparr> \<and>
   step (Timeout 0) \<lparr>poolSize = 2, interval = 5, currentPoolSize = 1, cycles = Some 0,
      timers = [0], nextTimeout = 1, notified = []\<rparr> =
     \<lparr>poolSize = 2, interval = 5, currentPoolSize = 2, cycles = None, timers = [],
      nextTimeout = 1, notified = []\<rparr>"
  using
    cycle_firing [of observer "\<lparr>poolSize = 2, interval = 5, currentPoolSize = 0,
      cycles = Some 0, timers = [0], nextTimeout = 1, notified = []\<rparr>" 0]
    cycle_firing [of observer "\<lparr>poolSize = 2, interval = 5, currentPoolSize = 1,
      cycles = Some 0, timers = [0], nextTimeout = 1, notified = []\<rparr>" 0]
  by (simp add: eval_defs)

text \<open>
  Claim C6. A pool constructed with capacity \<open>c\<close> starts with \<open>remaining = c\<close>, and
  \<open>0 \<le> remaining \<le> c\<close> holds after every sequence of \<open>consume()\<close>, \<open>destroy()\<close> and
  timeouts; each single operation keeps the capacity and keeps \<open>remaining\<close> within
  \<open>[0, capacity]\<close>.
\<close>

theorem remaining_within_capacity:
  "(ResourcePool_constructor s i cb = Inr p0 \<longrightarrow>
      s = Num (of_int (poolSize p0)) \<and> ResourcePool_remaining p0 = poolSize p0 \<and>
      0 \<le> ResourcePool_remaining p0 \<and>
      (\<forall>es. poolSize (run es p0) = poolSize p0 \<and>
            0 \<le> ResourcePool_remaining (run es p0) \<and>
            ResourcePool_remaining (run es p0) \<le> poolSize p0)) \<and>
   (0 \<le> ResourcePool_remaining p \<and> ResourcePool_remaining p \<le> poolSize p \<longrightarrow>
      poolSize (step e p) = poolSize p \<and>
      0 \<le> ResourcePool_remaining (step e p) \<and>
      ResourcePool_remaining (step e p) \<le> poolSize p)"
proof (intro conjI impI)
  assume c: "ResourcePool_constructor s i cb = Inr p0"
  note init = constructor_Inr [OF c]
  from init show "s = Num (of_int (poolSize p0))" by auto
  from init show "ResourcePool_remaining p0 = poolSize p0"
    by (auto simp: ResourcePool_remaining_def)
  from init show "0 \<le> ResourcePool_remaining p0"
    by (auto simp: ResourcePool_remaining_def)
  show "\<forall>es. poolSize (run es p0) = poolSize p0 \<and>
            0 \<le> ResourcePool_remaining (run es p0) \<and>
            ResourcePool_remaining (run es p0) \<le> poolSize p0"
  proof
    fix es
    from run_consistent [OF constructor_consistent [OF c], of es] run_poolSize [of es p0]
    show "poolSize (run es p0) = poolSize p0 \<and>
            0 \<le> ResourcePool_remaining (run es p0) \<and>
            ResourcePool_remaining (run es p0) \<le> poolSize p0"
      by (simp add: consistent_def ResourcePool_remaining_def)
  qed
next
  assume b: "0 \<le> ResourcePool_remaining p \<and> ResourcePool_remaining p \<le> poolSize p"
  show "poolSize (step e p) = poolSize p" by (rule step_poolSize)
  from b show "0 \<le> ResourcePool_remaining (step e p)"
    using minusOne_bounds [of "currentPoolSize p"]
    by (cases e) (auto simp: pool_defs Let_def split: option.splits)
  from b show "ResourcePool_remaining (step e p) \<le> poolSize p"
    using minusOne_bounds [of "currentPoolSize p"]
    by (cases e) (auto simp: pool_defs Let_def split: option.splits)
qed

theorem remaining_within_capacity_witness:
  "ResourcePool_constructor (Num 2) (Num 5) Function =
     Inr \<lparr>poolSize = 2, interval = 5, currentPoolSize = 2, cycles = None, timers = [],
          nextTimeout = 0, notified = []\<rparr> \<and>
   ResourcePool_remaining (run [Consume, Consume, Consume, Timeout 0, Consume, Destroy]
     \<lparr>poolSize = 2, interval = 5, currentPoolSize = 2, cycles = None, timers = [],
      nextTimeout = 0, notified = []\<rparr>) = 1 \<and>
   ResourcePool_remaining (step Consume \<lparr>poolSize = 2, interval = 5, currentPoolSize = 2,
      cycles = None, timers = [], nextTimeout = 0, notified = []\<rparr>) = 1"
  using remaining_within_capacity [of "Num 2" "Num 5" Function
      "\<lparr>poolSize = 2, interval = 5, currentPoolSize = 2, cycles = None, timers = [],
        nextTimeout = 0, notified = []\<rparr>"
      "\<lparr>poolSize = 2, interval = 5, currentPoolSize = 2, cycles = None, timers = [],
        nextTimeout = 0, notified = []\<rparr>" Consume]
  by (simp add: eval_defs)

text \<open>
  Claim C7, as the code has it. In every state a constructed pool can reach: the record in
  \<open>cycles\<close> is present exactly when the pool has been drawn down since its last full
  reset, that is, some \<open>consume()\<close> has returned \<open>true\<close> since then; a pool without a record
  is full, and where one \<open>consume()\<close> lowers a full pool at all, as it does for every
  capacity up to \<open>2^53\<close>, the record is present exactly when \<open>remaining\<close> is below the
  capacity; at most one timeout is pending, and a pending timeout is the one the record
  names; and the record is present exactly when a timeout is pending, unless some
  \<open>destroy()\<close> has found a record, and then never again.
\<close>

theorem record_and_timer:
  assumes "ResourcePool_constructor s i cb = Inr p0"
  shows "(cycles (run es p0) \<noteq> None \<longleftrightarrow> drawnDown False es p0) \<and>
         (cycles (run es p0) = None \<longrightarrow> ResourcePool_remaining (run es p0) = poolSize p0) \<and>
         (poolSize p0 \<le> 2 ^ 53 \<longrightarrow> minusOne (poolSize p0) < poolSize p0) \<and>
         (minusOne (poolSize p0) < poolSize p0 \<longrightarrow>
            (cycles (run es p0) = None \<longleftrightarrow> ResourcePool_remaining (run es p0) = poolSize p0)) \<and>
         (timers (run es p0) = [] \<or> (\<exists>t. cycles (run es p0) = Some t \<and> timers (run es p0) = [t])) \<and>
         ((cycles (run es p0) = None \<longleftrightarrow> timers (run es p0) = []) \<longleftrightarrow>
            \<not> destroyFoundRecord es p0)"
proof (intro conjI)
  note init = constructor_Inr [OF assms]
  note reach = run_consistent [OF constructor_consistent [OF assms], of es]
  from init have "False \<longleftrightarrow> cycles p0 \<noteq> None" by auto
  from run_drawnDown [OF this, of es]
  show "cycles (run es p0) \<noteq> None \<longleftrightarrow> drawnDown False es p0" by simp
  from reach show "cycles (run es p0) = None \<longrightarrow> ResourcePool_remaining (run es p0) = poolSize p0"
    by (simp add: consistent_def ResourcePool_remaining_def run_poolSize)
  show "poolSize p0 \<le> 2 ^ 53 \<longrightarrow> minusOne (poolSize p0) < poolSize p0"
    by (simp add: minusOne_exact)
  from reach show "minusOne (poolSize p0) < poolSize p0 \<longrightarrow>
      (cycles (run es p0) = None \<longleftrightarrow> ResourcePool_remaining (run es p0) = poolSize p0)"
    by (auto simp: consistent_def ResourcePool_remaining_def run_poolSize)
  from reach
  show "timers (run es p0) = [] \<or> (\<exists>t. cycles (run es p0) = Some t \<and> timers (run es p0) = [t])"
    by (auto simp: consistent_def split: option.splits)
  show "(cycles (run es p0) = None \<longleftrightarrow> timers (run es p0) = []) \<longleftrightarrow> \<not> destroyFoundRecord es p0"
  proof (cases "destroyFoundRecord es p0")
    case True
    from run_destroyFoundRecord [OF constructor_consistent [OF assms] True] True
    show ?thesis by (simp add: cancelled_def)
  next
    case False
    from run_armed [OF constructor_armed [OF assms] False] False
    show ?thesis by (auto simp: armed_def split: option.splits)
  qed
qed

theorem record_and_timer_witness:
  "ResourcePool_constructor (Num 2) (Num 5) Function =
     Inr \<lparr>poolSize = 2, interval = 5, currentPoolSize = 2, cycles = None, timers = [],
          nextTimeout = 0, notified = []\<rparr> \<and>
   (2::int) \<le> 2 ^ 53 \<and> minusOne 2 < 2 \<and>
   drawnDown False [Destroy, Consume, Timeout 0, Consume]
     \<lparr>poolSize = 2, interval = 5, currentPoolSize = 2, cycles = None, timers = [],
      nextTimeout = 0, notified = []\<rparr> \<and>
   \<not> destroyFoundRecord [Destroy, Consume, Timeout 0, Consume]
     \<lparr>poolSize = 2, interval = 5, currentPoolSize = 2, cycles = None, timers = [],
      nextTimeout = 0, notified = []\<rparr> \<and>
   run [Destroy, Consume, Timeout 0, Consume] \<lparr>poolSize = 2, interval = 5,
      currentPoolSize = 2, cycles = None, timers = [], nextTimeout = 0, notified = []\<rparr> =
     \<lparr>poolSize = 2, interval = 5, currentPoolSize = 1, cycles = Some 1, timers = [1],
      nextTimeout = 2, notified = []\<rparr> \<and>
   run [Consume, Timeout 0] \<lparr>poolSize = 2, interval = 5, currentPoolSize = 2, cycles = None,
      timers = [], nextTimeout = 0, notified = []\<rparr> =
     \<lparr>poolSize = 2, interval = 5, currentPoolSize = 2, cycles = None, timers = [],
      nextTimeout = 1, notified = []\<rparr> \<and>
   destroyFoundRecord [Consume, Destroy] \<lparr>poolSize = 2, interval = 5, currentPoolSize = 2,
      cycles = None, timers = [], nextTimeout = 0, notified = []\<rparr>"
  using
    record_and_timer [of "Num 2" "Num 5" Function
      "\<lparr>poolSize = 2, interval = 5, currentPoolSize = 2, cycles = None, timers = [],
        nextTimeout = 0, notified = []\<rparr>" "[Destroy, Consume, Timeout 0, Consume]"]
    record_and_timer [of "Num 2" "Num 5" Function
      "\<lparr>poolSize = 2, interval = 5, currentPoolSize = 2, cycles = None, timers = [],
        nextTimeout = 0, notified = []\<rparr>" "[Consume, Timeout 0]"]
    record_and_timer [of "Num 2" "Num 5" Function
      "\<lparr>poolSize = 2, interval = 5, currentPoolSize = 2, cycles = None, timers = [],
        nextTimeout = 0, notified = []\<rparr>" "[Consume, Destroy]"]
  by (simp add: eval_defs)

text \<open>
  \<open>destroy()\<close> clears the timeout and keeps the record: after \<open>consume()\<close> and
  \<open>destroy()\<close> the record is present and no timeout is pending.
\<close>

theorem record_without_timer_counterexample:
  "ResourcePool_constructor (Num 2) (Num 5) Function =
     Inr \<lparr>poolSize = 2, interval = 5, currentPoolSize = 2, cycles = None, timers = [],
          nextTimeout = 0, notified = []\<rparr> \<and>
   cycles (run [Consume, Destroy] \<lparr>poolSize = 2, interval = 5, currentPoolSize = 2,
      cycles = None, timers = [], nextTimeout = 0, notified = []\<rparr>) = Some 0 \<and>
   timers (run [Consume, Destroy] \<lparr>poolSize = 2, interval = 5, currentPoolSize = 2,
      cycles = None, timers = [], nextTimeout = 0, notified = []\<rparr>) = []"
  by (simp add: eval_defs)

text \<open>
  Claim C8, as the code has it. \<open>destroy()\<close> is idempotent; without a record in \<open>cycles\<close>
  it does nothing, with a record it clears the timeout the record names and touches
  nothing else; on a constructed pool, in any state it can reach, no timeout is pending
  after \<open>destroy()\<close>. If the record is present when \<open>destroy()\<close> is called, then whatever
  happens afterwards no timeout is pending, no timeout function runs, the callback is not
  invoked and \<open>remaining\<close> never grows.
\<close>

theorem destroy_contract:
  "ResourcePool_destroy (ResourcePool_destroy p) = ResourcePool_destroy p \<and>
   (cycles p = None \<longrightarrow> ResourcePool_destroy p = p) \<and>
   (\<forall>t. cycles p = Some t \<longrightarrow> ResourcePool_destroy p = p\<lparr>timers := removeAll t (timers p)\<rparr>) \<and>
   (ResourcePool_constructor s i cb = Inr p0 \<longrightarrow>
      timers (ResourcePool_destroy (run es p0)) = [] \<and>
      (timers (run es p0) = [] \<longrightarrow> ResourcePool_destroy (run es p0) = run es p0) \<and>
      (cycles (run es p0) \<noteq> None \<longrightarrow>
         (\<forall>es' t. notified (run es' (ResourcePool_destroy (run es p0))) = notified (run es p0) \<and>
            timers (run es' (ResourcePool_destroy (run es p0))) = [] \<and>
            step (Timeout t) (run es' (ResourcePool_destroy (run es p0))) =
              run es' (ResourcePool_destroy (run es p0)) \<and>
            ResourcePool_remaining (run es' (ResourcePool_destroy (run es p0))) \<le>
              ResourcePool_remaining (run es p0))))"
proof (intro conjI impI allI)
  show "ResourcePool_destroy (ResourcePool_destroy p) = ResourcePool_destroy p"
    by (rule destroy_idem)
  show "ResourcePool_destroy p = p" if "cycles p = None"
    using that by (simp add: ResourcePool_destroy_def)
  show "ResourcePool_destroy p = p\<lparr>timers := removeAll t (timers p)\<rparr>" if "cycles p = Some t" for t
    using that by (simp add: ResourcePool_destroy_def clearTimeout_def)
next
  assume c: "ResourcePool_constructor s i cb = Inr p0"
  note reach = run_consistent [OF constructor_consistent [OF c], of es]
  from destroy_timers [OF reach] show "timers (ResourcePool_destroy (run es p0)) = []"
    by simp
  from destroy_timers [OF reach]
  show "ResourcePool_destroy (run es p0) = run es p0" if "timers (run es p0) = []"
    using that by simp
  fix es' t
  assume rec: "cycles (run es p0) \<noteq> None"
  note after = run_cancelled [OF destroy_cancelled [OF reach rec], of es']
  from after show "notified (run es' (ResourcePool_destroy (run es p0))) = notified (run es p0)"
    by (simp add: destroy_fields)
  from after show "timers (run es' (ResourcePool_destroy (run es p0))) = []"
    by (simp add: cancelled_def)
  from after show "step (Timeout t) (run es' (ResourcePool_destroy (run es p0))) =
      run es' (ResourcePool_destroy (run es p0))"
    by (simp only: cancelled_Timeout)
  from after show "ResourcePool_remaining (run es' (ResourcePool_destroy (run es p0))) \<le>
      ResourcePool_remaining (run es p0)"
    by (simp add: destroy_fields ResourcePool_remaining_def)
qed

theorem destroy_contract_witness:
  "ResourcePool_constructor (Num 1) (Num 5) Function =
     Inr \<lparr>poolSize = 1, interval = 5, currentPoolSize = 1, cycles = None, timers = [],
          nextTimeout = 0, notified = []\<rparr> \<and>
   timers (run [] \<lparr>poolSize = 1, interval = 5, currentPoolSize = 1, cycles = None,
      timers = [], nextTimeout = 0, notified = []\<rparr>) = [] \<and>
   ResourcePool_destroy \<lparr>poolSize = 1, interval = 5, currentPoolSize = 1, cycles = None,
      timers = [], nextTimeout = 0, notified = []\<rparr> =
     \<lparr>poolSize = 1, interval = 5, currentPoolSize = 1, cycles = None, timers = [],
      nextTimeout = 0, notified = []\<rparr> \<and>
   run [Consume] \<lparr>poolSize = 1, interval = 5, currentPoolSize = 1, cycles = None,
      timers = [], nextTimeout = 0, notified = []\<rparr> =
     \<lparr>poolSize = 1, interval = 5, currentPoolSize = 0, cycles = Some 0, timers = [0],
      nextTimeout = 1, notified = []\<rparr> \<and>
   ResourcePool_destroy \<lparr>poolSize = 1, interval = 5, currentPoolSize = 0, cycles = Some 0,
      timers = [0], nextTimeout = 1, notified = []\<rparr> =
     \<lparr>poolSize = 1, interval = 5, currentPoolSize = 0, cycles = Some 0, timers = [],
      nextTimeout = 1, notified = []\<rparr> \<and>
   run [Timeout 0, Consume, Destroy, Timeout 0]
     \<lparr>poolSize = 1, interval = 5, currentPoolSize = 0, cycles = Some 0, timers = [],
      nextTimeout = 1, notified = []\<rparr> =
     \<lparr>poolSize = 1, interval = 5, currentPoolSize = 0, cycles = Some 0, timers = [],
      nextTimeout = 1, notified = []\<rparr>"
proof -
  have c: "ResourcePool_constructor (Num 1) (Num 5) Function =
     Inr \<lparr>poolSize = 1, interval = 5, currentPoolSize = 1, cycles = None, timers = [],
          nextTimeout = 0, notified = []\<rparr>"
    by (simp add: eval_defs)
  have r: "cycles (run [Consume] \<lparr>poolSize = 1, interval = 5, currentPoolSize = 1, cycles = None,
      timers = [], nextTimeout = 0, notified = []\<rparr>) \<noteq> None"
    by (simp add: eval_defs)
  from destroy_contract [of "\<lparr>poolSize = 1, interval = 5, currentPoolSize = 0, cycles = Some 0,
      timers = [0], nextTimeout = 1, notified = []\<rparr>" "Num 1" "Num 5" Function
      "\<lparr>poolSize = 1, interval = 5, currentPoolSize = 1, cycles = None, timers = [],
        nextTimeout = 0, notified = []\<rparr>" "[Consume]"] c r
  have "notified (run [Timeout 0, Consume, Destroy, Timeout 0]
      (ResourcePool_destroy (run [Consume] \<lparr>poolSize = 1, interval = 5, currentPoolSize = 1,
         cycles = None, timers = [], nextTimeout = 0, notified = []\<rparr>))) =
      notified (run [Consume] \<lparr>poolSize = 1, interval = 5, currentPoolSize = 1,
         cycles = None, timers = [], nextTimeout = 0, notified = []\<rparr>)"
    by blast
  with destroy_contract [of "\<lparr>poolSize = 1, interval = 5, currentPoolSize = 1, cycles = None,
      timers = [], nextTimeout = 0, notified = []\<rparr>" "Num 1" "Num 5" Function
      "\<lparr>poolSize = 1, interval = 5, currentPoolSize = 1, cycles = None, timers = [],
        nextTimeout = 0, notified = []\<rparr>" "[]"]
  show ?thesis by (simp add: eval_defs)
qed

text \<open>
  \<open>destroy()\<close> on a pool without a record does nothing: on a new pool of capacity 1,
  \<open>destroy()\<close>, \<open>consume()\<close> and the timeout that \<open>consume()\<close> scheduled end with the pool
  replenished and the callback invoked.
\<close>

theorem callback_after_destroy_counterexample:
  "ResourcePool_constructor (Num 1) (Num 5) Function =
     Inr \<lparr>poolSize = 1, interval = 5, currentPoolSize = 1, cycles = None, timers = [],
          nextTimeout = 0, notified = []\<rparr> \<and>
   run [Destroy, Consume, Timeout 0] \<lparr>poolSize = 1, interval = 5, currentPoolSize = 1,
      cycles = None, timers = [], nextTimeout = 0, notified = []\<rparr> =
     \<lparr>poolSize = 1, interval = 5, currentPoolSize = 1, cycles = None, timers = [],
      nextTimeout = 1, notified = [1]\<rparr>"
  by (simp add: eval_defs)

text \<open>
  Claim C10, as the code has it. If the record in \<open>cycles\<close> is present when \<open>destroy()\<close> is
  called, then in every later state the record is still there, no timeout is pending,
  \<open>remaining\<close> has not grown, and it is below the capacity where one \<open>consume()\<close> lowers a
  full pool at all, as it does for every capacity up to \<open>2^53\<close>; \<open>consume()\<close> on a pool that
  is not exhausted returns \<open>true\<close> and replaces \<open>remaining\<close> by \<open>remaining - 1\<close> as doubles
  subtract, exactly one less while \<open>remaining\<close> is at most \<open>2^53\<close>, without scheduling a
  timeout.
\<close>

theorem destroyed_pool_never_replenished:
  assumes "ResourcePool_constructor s i cb = Inr p0" and "cycles (run es p0) \<noteq> None"
  shows "cycles (run es' (ResourcePool_destroy (run es p0))) = cycles (run es p0) \<and>
         timers (run es' (ResourcePool_destroy (run es p0))) = [] \<and>
         ResourcePool_remaining (run es' (ResourcePool_destroy (run es p0))) \<le>
           ResourcePool_remaining (run es p0) \<and>
         (minusOne (poolSize p0) < poolSize p0 \<longrightarrow>
            ResourcePool_remaining (run es' (ResourcePool_destroy (run es p0))) <
              poolSize (run es' (ResourcePool_destroy (run es p0)))) \<and>
         (\<not> ResourcePool_exhausted (run es' (ResourcePool_destroy (run es p0))) \<longrightarrow>
            ResourcePool_consume (run es' (ResourcePool_destroy (run es p0))) =
              (True, (run es' (ResourcePool_destroy (run es p0)))
                 \<lparr>currentPoolSize :=
                    minusOne (currentPoolSize (run es' (ResourcePool_destroy (run es p0))))\<rparr>)) \<and>
         (\<not> ResourcePool_exhausted (run es' (ResourcePool_destroy (run es p0))) \<and>
          ResourcePool_remaining (run es' (ResourcePool_destroy (run es p0))) \<le> 2 ^ 53 \<longrightarrow>
            ResourcePool_remaining
              (snd (ResourcePool_consume (run es' (ResourcePool_destroy (run es p0))))) =
            ResourcePool_remaining (run es' (ResourcePool_destroy (run es p0))) - 1)"
proof -
  let ?p = "run es p0" and ?q = "run es' (ResourcePool_destroy (run es p0))"
  note reach = run_consistent [OF constructor_consistent [OF assms(1)], of es]
  note after = run_cancelled [OF destroy_cancelled [OF reach assms(2)], of es']
  from after have rec: "cycles ?q = cycles ?p" and tm: "timers ?q = []"
    and le: "ResourcePool_remaining ?q \<le> ResourcePool_remaining ?p"
    by (simp_all add: destroy_fields cancelled_def ResourcePool_remaining_def)
  have below: "ResourcePool_remaining ?q < poolSize ?q" if "minusOne (poolSize p0) < poolSize p0"
  proof -
    from reach assms(2) that have "currentPoolSize ?p < poolSize ?p"
      by (auto simp: consistent_def run_poolSize)
    with le show ?thesis
      by (simp add: destroy_fields run_poolSize ResourcePool_remaining_def)
  qed
  from rec assms(2) have rq: "cycles ?q \<noteq> None" by simp
  then have cons: "\<not> ResourcePool_exhausted ?q \<longrightarrow>
      ResourcePool_consume ?q = (True, ?q\<lparr>currentPoolSize := minusOne (currentPoolSize ?q)\<rparr>)"
    by (simp add: consume_armed)
  have exact: "ResourcePool_remaining (snd (ResourcePool_consume ?q)) =
      ResourcePool_remaining ?q - 1"
    if "\<not> ResourcePool_exhausted ?q \<and> ResourcePool_remaining ?q \<le> 2 ^ 53"
    using that consume_available [of ?q]
    by (simp add: ResourcePool_remaining_def minusOne_exact)
  from rec tm le below cons exact show ?thesis by blast
qed

theorem destroyed_pool_never_replenished_witness:
  "ResourcePool_constructor (Num 2) (Num 5) Function =
     Inr \<lparr>poolSize = 2, interval = 5, currentPoolSize = 2, cycles = None, timers = [],
          nextTimeout = 0, notified = []\<rparr> \<and>
   cycles (run [Consume] \<lparr>poolSize = 2, interval = 5, currentPoolSize = 2, cycles = None,
      timers = [], nextTimeout = 0, notified = []\<rparr>) = Some 0 \<and>
   minusOne 2 < 2 \<and>
   run [Timeout 0] (ResourcePool_destroy (run [Consume] \<lparr>poolSize = 2, interval = 5,
      currentPoolSize = 2, cycles = None, timers = [], nextTimeout = 0, notified = []\<rparr>)) =
     \<lparr>poolSize = 2, interval = 5, currentPoolSize = 1, cycles = Some 0, timers = [],
      nextTimeout = 1, notified = []\<rparr> \<and>
   ResourcePool_consume \<lparr>poolSize = 2, interval = 5, currentPoolSize = 1, cycles = Some 0,
      timers = [], nextTimeout = 1, notified = []\<rparr> =
     (True, \<lparr>poolSize = 2, interval = 5, currentPoolSize = 0, cycles = Some 0, timers = [],
      nextTimeout = 1, notified = []\<rparr>)"
  using destroyed_pool_never_replenished [of "Num 2" "Num 5" Function
      "\<lparr>poolSize = 2, interval = 5, currentPoolSize = 2, cycles = None, timers = [],
        nextTimeout = 0, notified = []\<rparr>" "[Consume]" "[Timeout 0]"]
  by (simp add: eval_defs)

text \<open>
  After \<open>destroy()\<close> on a new pool of capacity 2 there is no record: \<open>consume()\<close> schedules
  a timeout, and when it fires \<open>remaining\<close> is back at the capacity. And the counter is a
  double: on a pool of capacity \<open>10^20\<close>, after \<open>consume()\<close> and \<open>destroy()\<close> a further
  \<open>consume()\<close> returns \<open>true\<close> and leaves \<open>remaining\<close> at the capacity.
\<close>

theorem rearm_after_destroy_counterexample:
  "ResourcePool_constructor (Num 2) (Num 5) Function =
     Inr \<lparr>poolSize = 2, interval = 5, currentPoolSize = 2, cycles = None, timers = [],
          nextTimeout = 0, notified = []\<rparr> \<and>
   run [Destroy, Consume] \<lparr>poolSize = 2, interval = 5, currentPoolSize = 2, cycles = None,
      timers = [], nextTimeout = 0, notified = []\<rparr> =
     \<lparr>poolSize = 2, interval = 5, currentPoolSize = 1, cycles = Some 0, timers = [0],
      nextTimeout = 1, notified = []\<rparr> \<and>
   ResourcePool_remaining (run [Destroy, Consume, Timeout 0] \<lparr>poolSize = 2, interval = 5,
      currentPoolSize = 2, cycles = None, timers = [], nextTimeout = 0, notified = []\<rparr>) = 2 \<and>
   ResourcePool_constructor (Num 100000000000000000000) (Num 5) Function =
     Inr \<lparr>poolSize = 100000000000000000000, interval = 5,
          currentPoolSize = 100000000000000000000, cycles = None, timers = [],
          nextTimeout = 0, notified = []\<rparr> \<and>
   run [Consume, Destroy] \<lparr>poolSize = 100000000000000000000, interval = 5,
      currentPoolSize = 100000000000000000000, cycles = None, timers = [], nextTimeout = 0,
      notified = []\<rparr> =
     \<lparr>poolSize = 100000000000000000000, interval = 5,
      currentPoolSize = 100000000000000000000, cycles = Some 0, timers = [],
      nextTimeout = 1, notified = []\<rparr> \<and>
   ResourcePool_consume \<lparr>poolSize = 100000000000000000000, interval = 5,
      currentPoolSize = 100000000000000000000, cycles = Some 0, timers = [],
      nextTimeout = 1, notified = []\<rparr> =
     (True, \<lparr>poolSize = 100000000000000000000, interval = 5,
      currentPoolSize = 100000000000000000000, cycles = Some 0, timers = [],
      nextTimeout = 1, notified = []\<rparr>)"
  by (simp add: eval_defs)

section \<open>The constructor\<close>




section \<open>The group\<close>

text \<open>
  Claim C3, as the code has it. For a group with at least one member, \<open>remaining\<close> is the
  minimum of the members' \<open>remaining\<close>. If some member is exhausted, \<open>consume()\<close> returns
  \<open>false\<close> and the group is unchanged. Otherwise \<open>consume()\<close> returns \<open>true\<close> and has called
  \<open>consume()\<close> on every member, from the first added to the last: the member at position
  \<open>k\<close> is replaced by its state after its own \<open>consume()\<close>, called when the host's counter
  has been advanced by the members before it that had no record, so the timeouts scheduled
  carry ids that grow with the position. Every one of these calls returns \<open>true\<close> and
  replaces the member's \<open>remaining\<close> by \<open>remaining - 1\<close> as doubles subtract, which is
  exactly one less for a member whose \<open>remaining\<close> is at most \<open>2^53\<close>.
\<close>

theorem group_consume_all_or_nothing:
  assumes "pools g \<noteq> []"
  shows "ResourceGroup_remaining g = Inr (Min (ResourcePool_remaining ` set (pools g))) \<and>
         ((\<exists>p \<in> set (pools g). ResourcePool_exhausted p) \<longrightarrow>
            ResourceGroup_consume g = Inr (False, g)) \<and>
         ((\<forall>p \<in> set (pools g). \<not> ResourcePool_exhausted p) \<longrightarrow>
            ResourceGroup_consume g =
              Inr (True, g\<lparr>pools := fst (forEach_consume (pools g) (nextTimeoutId g)),
                           nextTimeoutId := snd (forEach_consume (pools g) (nextTimeoutId g))\<rparr>) \<and>
            length (fst (forEach_consume (pools g) (nextTimeoutId g))) = length (pools g) \<and>
            snd (forEach_consume (pools g) (nextTimeoutId g)) =
              nextTimeoutId g + length (filter (\<lambda>p. cycles p = None) (pools g)) \<and>
            (\<forall>k < length (pools g).
               fst (forEach_consume (pools g) (nextTimeoutId g)) ! k =
                 snd (ResourcePool_consume
                   ((pools g ! k)\<lparr>nextTimeout := nextTimeoutId g +
                      length (filter (\<lambda>p. cycles p = None) (take k (pools g)))\<rparr>)) \<and>
               (cycles (pools g ! k) = None \<longrightarrow>
                  cycles (fst (forEach_consume (pools g) (nextTimeoutId g)) ! k) =
                    Some (nextTimeoutId g +
                      length (filter (\<lambda>p. cycles p = None) (take k (pools g))))) \<and>
               fst (ResourcePool_consume (pools g ! k)) \<and>
               ResourcePool_remaining (fst (forEach_consume (pools g) (nextTimeoutId g)) ! k) =
                 minusOne (ResourcePool_remaining (pools g ! k)) \<and>
               (ResourcePool_remaining (pools g ! k) \<le> 2 ^ 53 \<longrightarrow>
                  ResourcePool_remaining (fst (forEach_consume (pools g) (nextTimeoutId g)) ! k) =
                    ResourcePool_remaining (pools g ! k) - 1)))"
proof (intro conjI impI)
  show "ResourceGroup_remaining g = Inr (Min (ResourcePool_remaining ` set (pools g)))"
    by (rule group_remaining_Inr [OF assms])
  show "ResourceGroup_consume g = Inr (False, g)"
    if "\<exists>p \<in> set (pools g). ResourcePool_exhausted p"
    using that by (simp add: group_consume_Inr [OF assms])
next
  assume none: "\<forall>p \<in> set (pools g). \<not> ResourcePool_exhausted p"
  let ?n = "nextTimeoutId g"
  note each = forEach_consume_members [OF none, of ?n]
  from none show "ResourceGroup_consume g =
      Inr (True, g\<lparr>pools := fst (forEach_consume (pools g) ?n),
                   nextTimeoutId := snd (forEach_consume (pools g) ?n)\<rparr>)"
    by (simp add: group_consume_Inr [OF assms])
  from each show "length (fst (forEach_consume (pools g) ?n)) = length (pools g)"
    by blast
  from each show "snd (forEach_consume (pools g) ?n) =
      ?n + length (filter (\<lambda>p. cycles p = None) (pools g))"
    by blast
  show "\<forall>k < length (pools g).
      fst (forEach_consume (pools g) ?n) ! k =
        snd (ResourcePool_consume
          ((pools g ! k)\<lparr>nextTimeout := ?n +
             length (filter (\<lambda>p. cycles p = None) (take k (pools g)))\<rparr>)) \<and>
      (cycles (pools g ! k) = None \<longrightarrow>
         cycles (fst (forEach_consume (pools g) ?n) ! k) =
           Some (?n + length (filter (\<lambda>p. cycles p = None) (take k (pools g))))) \<and>
      fst (ResourcePool_consume (pools g ! k)) \<and>
      ResourcePool_remaining (fst (forEach_consume (pools g) ?n) ! k) =
        minusOne (ResourcePool_remaining (pools g ! k)) \<and>
      (ResourcePool_remaining (pools g ! k) \<le> 2 ^ 53 \<longrightarrow>
         ResourcePool_remaining (fst (forEach_consume (pools g) ?n) ! k) =
           ResourcePool_remaining (pools g ! k) - 1)"
  proof (intro allI impI)
    fix k
    assume k: "k < length (pools g)"
    let ?m = "?n + length (filter (\<lambda>p. cycles p = None) (take k (pools g)))"
    from k none have avail: "\<not> ResourcePool_exhausted (pools g ! k)" by simp
    from each k have eq: "fst (forEach_consume (pools g) ?n) ! k =
        snd (ResourcePool_consume ((pools g ! k)\<lparr>nextTimeout := ?m\<rparr>))"
      by blast
    note member = member_consume [OF avail, of ?m]
    from member(4) have rec: "cycles (pools g ! k) = None \<longrightarrow>
        cycles (fst (forEach_consume (pools g) ?n) ! k) = Some ?m"
      by (simp add: eq)
    from consume_available [OF avail] have ret: "fst (ResourcePool_consume (pools g ! k))"
      by simp
    from member(3) have dec: "ResourcePool_remaining (fst (forEach_consume (pools g) ?n) ! k) =
        minusOne (ResourcePool_remaining (pools g ! k))"
      by (simp add: eq ResourcePool_remaining_def)
    then have one: "ResourcePool_remaining (pools g ! k) \<le> 2 ^ 53 \<longrightarrow>
        ResourcePool_remaining (fst (forEach_consume (pools g) ?n) ! k) =
          ResourcePool_remaining (pools g ! k) - 1"
      by (simp add: minusOne_exact)
    from eq rec ret dec one
    show "fst (forEach_consume (pools g) ?n) ! k =
        snd (ResourcePool_consume ((pools g ! k)\<lparr>nextTimeout := ?m\<rparr>)) \<and>
      (cycles (pools g ! k) = None \<longrightarrow>
         cycles (fst (forEach_consume (pools g) ?n) ! k) = Some ?m) \<and>
      fst (ResourcePool_consume (pools g ! k)) \<and>
      ResourcePool_remaining (fst (forEach_consume (pools g) ?n) ! k) =
        minusOne (ResourcePool_remaining (pools g ! k)) \<and>
      (ResourcePool_remaining (pools g ! k) \<le> 2 ^ 53 \<longrightarrow>
         ResourcePool_remaining (fst (forEach_consume (pools g) ?n) ! k) =
           ResourcePool_remaining (pools g ! k) - 1)"
      by blast
  qed
qed

theorem group_consume_all_or_nothing_witness:
  "ResourceGroup_add (Num 2) (Num 10) \<lparr>pools = [], nextTimeoutId = 0\<rparr> =
     Inr \<lparr>pools = [\<lparr>poolSize = 2, interval = 10, currentPoolSize = 2, cycles = None,
       timers = [], nextTimeout = 0, notified = []\<rparr>], nextTimeoutId = 0\<rparr> \<and>
   ResourceGroup_add (Num 5) (Num 10)
     \<lparr>pools = [\<lparr>poolSize = 2, interval = 10, currentPoolSize = 2, cycles = None,
       timers = [], nextTimeout = 0, notified = []\<rparr>], nextTimeoutId = 0\<rparr> =
     Inr \<lparr>pools = [\<lparr>poolSize = 2, interval = 10, currentPoolSize = 2, cycles = None,
         timers = [], nextTimeout = 0, notified = []\<rparr>,
       \<lparr>poolSize = 5, interval = 10, currentPoolSize = 5, cycles = None,
         timers = [], nextTimeout = 0, notified = []\<rparr>], nextTimeoutId = 0\<rparr> \<and>
   ResourceGroup_remaining
     \<lparr>pools = [\<lparr>poolSize = 2, interval = 10, currentPoolSize = 2, cycles = None,
         timers = [], nextTimeout = 0, notified = []\<rparr>,
       \<lparr>poolSize = 5, interval = 10, currentPoolSize = 5, cycles = None,
         timers = [], nextTimeout = 0, notified = []\<rparr>], nextTimeoutId = 0\<rparr> = Inr 2 \<and>
   ResourceGroup_consume
     \<lparr>pools = [\<lparr>poolSize = 2, interval = 10, currentPoolSize = 2, cycles = None,
         timers = [], nextTimeout = 0, notified = []\<rparr>,
       \<lparr>poolSize = 5, interval = 10, currentPoolSize = 5, cycles = None,
         timers = [], nextTimeout = 0, notified = []\<rparr>], nextTimeoutId = 0\<rparr> =
     Inr (True, \<lparr>pools = [\<lparr>poolSize = 2, interval = 10, currentPoolSize = 1, cycles = Some 0,
         timers = [0], nextTimeout = 1, notified = []\<rparr>,
       \<lparr>poolSize = 5, interval = 10, currentPoolSize = 4, cycles = Some 1,
         timers = [1], nextTimeout = 2, notified = []\<rparr>], nextTimeoutId = 2\<rparr>) \<and>
   ResourceGroup_consume
     \<lparr>pools = [\<lparr>poolSize = 2, interval = 10, currentPoolSize = 0, cycles = Some 0,
         timers = [0], nextTimeout = 1, notified = []\<rparr>,
       \<lparr>poolSize = 5, interval = 10, currentPoolSize = 3, cycles = Some 1,
         timers = [1], nextTimeout = 2, notified = []\<rparr>], nextTimeoutId = 2\<rparr> =
     Inr (False, \<lparr>pools = [\<lparr>poolSize = 2, interval = 10, currentPoolSize = 0, cycles = Some 0,
         timers = [0], nextTimeout = 1, notified = []\<rparr>,
       \<lparr>poolSize = 5, interval = 10, currentPoolSize = 3, cycles = Some 1,
         timers = [1], nextTimeout = 2, notified = []\<rparr>], nextTimeoutId = 2\<rparr>)"
proof -
  let ?g = "\<lparr>pools = [\<lparr>poolSize = 2, interval = 10, currentPoolSize = 2, cycles = None,
         timers = [], nextTimeout = 0, notified = []\<rparr>,
       \<lparr>poolSize = 5, interval = 10, currentPoolSize = 5, cycles = None,
         timers = [], nextTimeout = 0, notified = []\<rparr>], nextTimeoutId = 0\<rparr>"
  let ?h = "\<lparr>pools = [\<lparr>poolSize = 2, interval = 10, currentPoolSize = 0, cycles = Some 0,
         timers = [0], nextTimeout = 1, notified = []\<rparr>,
       \<lparr>poolSize = 5, interval = 10, currentPoolSize = 3, cycles = Some 1,
         timers = [1], nextTimeout = 2, notified = []\<rparr>], nextTimeoutId = 2\<rparr>"
  have "pools ?g \<noteq> []" by simp
  note g = group_consume_all_or_nothing [OF this]
  have "pools ?h \<noteq> []" by simp
  note h = group_consume_all_or_nothing [OF this]
  have "\<forall>p \<in> set (pools ?g). \<not> ResourcePool_exhausted p"
    by (simp add: ResourcePool_exhausted_def ResourcePool_remaining_def)
  with g have 1: "ResourceGroup_consume ?g =
      Inr (True, ?g\<lparr>pools := fst (forEach_consume (pools ?g) (nextTimeoutId ?g)),
                    nextTimeoutId := snd (forEach_consume (pools ?g) (nextTimeoutId ?g))\<rparr>)"
    by blast
  have "\<exists>p \<in> set (pools ?h). ResourcePool_exhausted p"
    by (simp add: ResourcePool_exhausted_def ResourcePool_remaining_def)
  with h have 2: "ResourceGroup_consume ?h = Inr (False, ?h)"
    by blast
  from g have 3: "ResourceGroup_remaining ?g = Inr (Min (ResourcePool_remaining ` set (pools ?g)))"
    by (rule conjunct1)
  have 4: "ResourceGroup_add (Num 2) (Num 10) \<lparr>pools = [], nextTimeoutId = 0\<rparr> =
     Inr \<lparr>pools = [\<lparr>poolSize = 2, interval = 10, currentPoolSize = 2, cycles = None,
       timers = [], nextTimeout = 0, notified = []\<rparr>], nextTimeoutId = 0\<rparr>"
    by (simp add: ResourceGroup_add_def getPools_def eval_defs)
  have 5: "ResourceGroup_add (Num 5) (Num 10)
     \<lparr>pools = [\<lparr>poolSize = 2, interval = 10, currentPoolSize = 2, cycles = None,
       timers = [], nextTimeout = 0, notified = []\<rparr>], nextTimeoutId = 0\<rparr> = Inr ?g"
    by (simp add: ResourceGroup_add_def getPools_def eval_defs)
  from 1 have 6: "ResourceGroup_consume ?g =
     Inr (True, \<lparr>pools = [\<lparr>poolSize = 2, interval = 10, currentPoolSize = 1, cycles = Some 0,
         timers = [0], nextTimeout = 1, notified = []\<rparr>,
       \<lparr>poolSize = 5, interval = 10, currentPoolSize = 4, cycles = Some 1,
         timers = [1], nextTimeout = 2, notified = []\<rparr>], nextTimeoutId = 2\<rparr>)"
    by (simp add: eval_defs)
  from 3 have 7: "ResourceGroup_remaining ?g = Inr 2"
    by (simp add: ResourcePool_remaining_def)
  from 4 5 6 7 2 show ?thesis by (simp only: simp_thms)
qed

text \<open>
  The counter is a double: in a group whose one member was added with capacity \<open>10^20\<close>,
  \<open>consume()\<close> returns \<open>true\<close> and the member's \<open>remaining\<close> is what it was.
\<close>

theorem group_consume_rounding_counterexample:
  "ResourceGroup_add (Num 100000000000000000000) (Num 10) \<lparr>pools = [], nextTimeoutId = 0\<rparr> =
     Inr \<lparr>pools = [\<lparr>poolSize = 100000000000000000000, interval = 10,
         currentPoolSize = 100000000000000000000, cycles = None, timers = [],
         nextTimeout = 0, notified = []\<rparr>], nextTimeoutId = 0\<rparr> \<and>
   ResourceGroup_consume
     \<lparr>pools = [\<lparr>poolSize = 100000000000000000000, interval = 10,
         currentPoolSize = 100000000000000000000, cycles = None, timers = [],
         nextTimeout = 0, notified = []\<rparr>], nextTimeoutId = 0\<rparr> =
     Inr (True, \<lparr>pools = [\<lparr>poolSize = 100000000000000000000, interval = 10,
         currentPoolSize = 100000000000000000000, cycles = Some 0, timers = [0],
         nextTimeout = 1, notified = []\<rparr>], nextTimeoutId = 1\<rparr>)"
  by (simp add: ResourceGroup_add_def group_defs eval_defs)

text \<open>
  Claim C4. Reading \<open>remaining\<close> or \<open>exhausted\<close> of a group fails exactly when the group
  has no members, and then with \<open>NO_RESOURCE_POOLS_FOUND\<close>; with at least one member
  \<open>remaining\<close> is the minimum over the members and \<open>exhausted\<close> tells whether it is at most
  zero. Both reads are functions of the group's state and return no new state.
\<close>

theorem group_reads:
  "(ResourceGroup_remaining g = Inl e \<longleftrightarrow> pools g = [] \<and> e = NO_RESOURCE_POOLS_FOUND) \<and>
   (ResourceGroup_exhausted g = Inl e \<longleftrightarrow> pools g = [] \<and> e = NO_RESOURCE_POOLS_FOUND) \<and>
   (pools g \<noteq> [] \<longrightarrow>
      ResourceGroup_remaining g = Inr (min_list (map ResourcePool_remaining (pools g))) \<and>
      ResourceGroup_exhausted g = Inr (min_list (map ResourcePool_remaining (pools g)) \<le> 0))"
  by (simp add: group_remaining_Inl group_exhausted_Inl)
    (simp add: ResourceGroup_exhausted_def ResourceGroup_remaining_def getPools_def)

theorem group_reads_witness:
  "ResourceGroup_constructor Function = Inr \<lparr>pools = [], nextTimeoutId = 0\<rparr> \<and>
   ResourceGroup_remaining \<lparr>pools = [], nextTimeoutId = 0\<rparr> = Inl NO_RESOURCE_POOLS_FOUND \<and>
   ResourceGroup_exhausted \<lparr>pools = [], nextTimeoutId = 0\<rparr> = Inl NO_RESOURCE_POOLS_FOUND \<and>
   ResourceGroup_remaining
     \<lparr>pools = [\<lparr>poolSize = 2, interval = 10, currentPoolSize = 1, cycles = Some 0,
         timers = [0], nextTimeout = 1, notified = []\<rparr>,
       \<lparr>poolSize = 5, interval = 10, currentPoolSize = 4, cycles = Some 1,
         timers = [1], nextTimeout = 2, notified = []\<rparr>], nextTimeoutId = 2\<rparr> = Inr 1 \<and>
   ResourceGroup_exhausted
     \<lparr>pools = [\<lparr>poolSize = 2, interval = 10, currentPoolSize = 1, cycles = Some 0,
         timers = [0], nextTimeout = 1, notified = []\<rparr>,
       \<lparr>poolSize = 5, interval = 10, currentPoolSize = 4, cycles = Some 1,
         timers = [1], nextTimeout = 2, notified = []\<rparr>], nextTimeoutId = 2\<rparr> = Inr False"
  using
    group_reads [of "\<lparr>pools = [], nextTimeoutId = 0\<rparr>" NO_RESOURCE_POOLS_FOUND]
    group_reads [of
      "\<lparr>pools = [\<lparr>poolSize = 2, interval = 10, currentPoolSize = 1, cycles = Some 0,
         timers = [0], nextTimeout = 1, notified = []\<rparr>,
       \<lparr>poolSize = 5, interval = 10, currentPoolSize = 4, cycles = Some 1,
         timers = [1], nextTimeout = 2, notified = []\<rparr>], nextTimeoutId = 2\<rparr>" NO_RESOURCE_POOLS_FOUND]
  by (simp add: eval_defs group_defs ResourceGroup_constructor_def)

text \<open>
  Claim C5, as the code has it. \<open>consume()\<close> of a pool returns a boolean, \<open>true\<close> exactly
  when the pool is not exhausted, and \<open>destroy()\<close> of a pool clears the timeout of the
  record, if there is one. \<open>consume()\<close> of a group fails exactly when the group has no
  members, with \<open>NO_RESOURCE_POOLS_FOUND\<close>; with at least one member it returns a
  boolean. \<open>destroy()\<close> of a group destroys every member, also when there are none.
\<close>

theorem consume_destroy_outcomes:
  "fst (ResourcePool_consume p) = (\<not> ResourcePool_exhausted p) \<and>
   timers (ResourcePool_destroy p) =
     (case cycles p of None \<Rightarrow> timers p | Some t \<Rightarrow> removeAll t (timers p)) \<and>
   (ResourceGroup_consume g = Inl e \<longleftrightarrow> pools g = [] \<and> e = NO_RESOURCE_POOLS_FOUND) \<and>
   (pools g \<noteq> [] \<longrightarrow>
      ResourceGroup_consume g =
        (if \<exists>p \<in> set (pools g). ResourcePool_exhausted p then Inr (False, g)
         else Inr (True, g\<lparr>pools := fst (forEach_consume (pools g) (nextTimeoutId g)),
                           nextTimeoutId := snd (forEach_consume (pools g) (nextTimeoutId g))\<rparr>))) \<and>
   ResourceGroup_destroy g = g\<lparr>pools := map ResourcePool_destroy (pools g)\<rparr>"
proof (intro conjI impI)
  show "fst (ResourcePool_consume p) = (\<not> ResourcePool_exhausted p)"
    using consume_exhausted [of p] consume_available [of p]
    by (cases "ResourcePool_exhausted p") simp_all
  show "timers (ResourcePool_destroy p) =
      (case cycles p of None \<Rightarrow> timers p | Some t \<Rightarrow> removeAll t (timers p))"
    by (cases "cycles p") (simp_all add: ResourcePool_destroy_def clearTimeout_def)
  show "ResourceGroup_consume g = Inl e \<longleftrightarrow> pools g = [] \<and> e = NO_RESOURCE_POOLS_FOUND"
    by (rule group_consume_Inl)
  show "ResourceGroup_consume g =
      (if \<exists>p \<in> set (pools g). ResourcePool_exhausted p then Inr (False, g)
       else Inr (True, g\<lparr>pools := fst (forEach_consume (pools g) (nextTimeoutId g)),
                         nextTimeoutId := snd (forEach_consume (pools g) (nextTimeoutId g))\<rparr>))"
    if "pools g \<noteq> []"
    using that by (rule group_consume_Inr)
  show "ResourceGroup_destroy g = g\<lparr>pools := map ResourcePool_destroy (pools g)\<rparr>"
    by (simp add: ResourceGroup_destroy_def getPools_def)
qed

theorem consume_destroy_outcomes_witness:
  "ResourceGroup_consume \<lparr>pools = [], nextTimeoutId = 0\<rparr> = Inl NO_RESOURCE_POOLS_FOUND \<and>
   ResourceGroup_destroy \<lparr>pools = [], nextTimeoutId = 0\<rparr> = \<lparr>pools = [], nextTimeoutId = 0\<rparr> \<and>
   ResourceGroup_consume
     \<lparr>pools = [\<lparr>poolSize = 1, interval = 10, currentPoolSize = 1, cycles = None,
         timers = [], nextTimeout = 0, notified = []\<rparr>], nextTimeoutId = 0\<rparr> =
     Inr (True, \<lparr>pools = [\<lparr>poolSize = 1, interval = 10, currentPoolSize = 0, cycles = Some 0,
         timers = [0], nextTimeout = 1, notified = []\<rparr>], nextTimeoutId = 1\<rparr>) \<and>
   ResourceGroup_destroy
     \<lparr>pools = [\<lparr>poolSize = 1, interval = 10, currentPoolSize = 0, cycles = Some 0,
         timers = [0], nextTimeout = 1, notified = []\<rparr>], nextTimeoutId = 1\<rparr> =
     \<lparr>pools = [\<lparr>poolSize = 1, interval = 10, currentPoolSize = 0, cycles = Some 0,
         timers = [], nextTimeout = 1, notified = []\<rparr>], nextTimeoutId = 1\<rparr>"
  using
    consume_destroy_outcomes [of
      "\<lparr>poolSize = 1, interval = 10, currentPoolSize = 1, cycles = None,
         timers = [], nextTimeout = 0, notified = []\<rparr>" "\<lparr>pools = [], nextTimeoutId = 0\<rparr>"
      NO_RESOURCE_POOLS_FOUND]
    consume_destroy_outcomes [of
      "\<lparr>poolSize = 1, interval = 10, currentPoolSize = 1, cycles = None,
         timers = [], nextTimeout = 0, notified = []\<rparr>"
      "\<lparr>pools = [\<lparr>poolSize = 1, interval = 10, currentPoolSize = 1, cycles = None,
         timers = [], nextTimeout = 0, notified = []\<rparr>], nextTimeoutId = 0\<rparr>" NO_RESOURCE_POOLS_FOUND]
  by (simp add: eval_defs group_defs)

text \<open>
  \<open>consume()\<close> of a group without members reads \<open>exhausted\<close>, which fails.
\<close>

theorem empty_group_consume_counterexample:
  "ResourceGroup_constructor Function = Inr \<lparr>pools = [], nextTimeoutId = 0\<rparr> \<and>
   ResourceGroup_consume \<lparr>pools = [], nextTimeoutId = 0\<rparr> = Inl NO_RESOURCE_POOLS_FOUND"
  by (simp add: group_defs ResourceGroup_constructor_def)

end
